theory Spec2Isabelle
  imports Main
begin

section \<open>The lifecycle manager of django-bulk-hooks\<close>

text \<open>
  A shallow embedding of \<^verbatim>\<open>src/django_bulk_hooks/manager.py\<close>
  (class \<^verbatim>\<open>BulkLifecycleManager\<close>). The six methods are translated statement by
  statement. Everything the manager calls but does not define (the hook engine, the
  base manager's batch primitives, the query set, the context constructor) is a
  parameter of the model, and may change the world and may raise.

  What the model fixes:
  \<^item> a batch is a list of references; a collaborator can change the objects, not which
    objects the list passed to it holds;
  \<^item> \<^verbatim>\<open>self.model.objects\<close>, which \<^verbatim>\<open>delete\<close> calls \<^verbatim>\<open>bulk_delete\<close> on, is this manager;
  \<^item> a class is a value of its own: two classes with the same \<^verbatim>\<open>__name__\<close> differ.
\<close>

subsection \<open>Python values and model instances\<close>

datatype pyval = PyNone | PyInt int | PyStr string

text \<open>The truth value Python gives to a value in \<^verbatim>\<open>if obj.pk:\<close>.\<close>

fun truthy :: "pyval \<Rightarrow> bool" where
  "truthy PyNone = False"
| "truthy (PyInt i) = (i \<noteq> 0)"
| "truthy (PyStr s) = (s \<noteq> [])"

text \<open>
  A class has an identity and a \<^verbatim>\<open>__name__\<close>; \<^verbatim>\<open>isinstance\<close> compares classes, not
  their names.
\<close>

datatype pyclass = PyClass (class_id: nat) (class_name: string)

text \<open>
  A model instance as the manager reads it: its class \<^verbatim>\<open>type(obj)\<close> and the classes
  that class inherits from (\<^verbatim>\<open>isinstance\<close>), the names of \<^verbatim>\<open>obj._meta.fields\<close> in
  order, the name of the primary-key field, and its attribute values. \<^verbatim>\<open>obj.pk\<close>
  reads the attribute of the primary-key field.
\<close>

record pyobj =
  obj_class :: pyclass
  class_supers :: "pyclass list"
  meta_fields :: "string list"
  meta_pk :: string
  attrs :: "string \<Rightarrow> pyval"

definition pk :: "pyobj \<Rightarrow> pyval" where
  "pk obj = attrs obj (meta_pk obj)"

definition isinstance :: "pyobj \<Rightarrow> pyclass \<Rightarrow> bool" where
  "isinstance obj c = (obj_class obj = c \<or> c \<in> set (class_supers obj))"

text \<open>
  \<^verbatim>\<open>setattr(obj, key, value)\<close>; the name \<^verbatim>\<open>pk\<close> is an alias of the
  primary-key field.
\<close>

definition setattr :: "pyobj \<Rightarrow> string \<Rightarrow> pyval \<Rightarrow> pyobj" where
  "setattr obj key v =
     obj\<lparr>attrs := (attrs obj)((if key = ''pk'' then meta_pk obj else key) := v)\<rparr>"

subsection \<open>The world: objects in memory and persisted rows\<close>

text \<open>
  Objects are passed by reference: a batch is a list of references into \<open>heap\<close>, so
  that a hook's change to an object is seen by everything that runs after it.
  \<open>db\<close> is the persisted state, of any type.
\<close>

type_synonym ref = nat

record 'db world =
  heap :: "ref \<Rightarrow> pyobj"
  db :: 'db

datatype event =
  BEFORE_CREATE | AFTER_CREATE | BEFORE_UPDATE | AFTER_UPDATE | BEFORE_DELETE | AFTER_DELETE

datatype error =
  TypeError string string "string set"
| HookError string
| StorageError string

subsection \<open>The trace of calls\<close>

text \<open>
  Every call the manager makes to a collaborator is recorded with its arguments and
  with how it ended; a call of the manager to one of its own bulk methods (from
  \<^verbatim>\<open>save\<close>, \<^verbatim>\<open>update\<close>, \<^verbatim>\<open>delete\<close>) is recorded when it is made; and so are the
  entry into the transaction of \<^verbatim>\<open>@transaction.atomic\<close> and its end, by commit or by
  rollback. Collaborators work on the world only, so what a hook does inside (also a
  nested bulk call) never shows in the trace of the call that ran it.
\<close>

datatype call =
  Engine_run pyclass event "ref list" "ref list option" ref
| New_TriggerContext pyclass
| Filter_pk_in "pyval list"
| Filter_pk_in_delete "pyval list"
| Super_bulk_update "ref list" "string list" "nat option"
| Super_bulk_create "ref list" "nat option" bool
| All_objects

datatype outcome = Returned | Raised error

datatype routed =
  Self_bulk_update "ref list" "string list" "nat option" bool
| Self_bulk_create "ref list" "nat option" bool bool
| Self_bulk_delete "ref list" "nat option" bool

datatype entry =
  Called call outcome
| Routed routed
| Atomic_begin
| Atomic_commit
| Atomic_rollback

type_synonym 'db state = "'db world \<times> entry list"

type_synonym ('a, 'db) action = "'db world \<Rightarrow> (error + 'a) \<times> 'db world"

type_synonym ('a, 'db) m = "'db state \<Rightarrow> (error + 'a) \<times> 'db state"

subsection \<open>The collaborators\<close>

text \<open>
  \<^item> \<open>model\<close>: \<^verbatim>\<open>self.model\<close>, the class the manager is bound to;
  \<^item> \<open>engine_run\<close>: \<^verbatim>\<open>engine.run(model_cls, event, objs, originals, ctx=ctx)\<close>;
  \<^item> \<open>new_context\<close>: \<^verbatim>\<open>TriggerContext(model_cls)\<close>, giving a reference to the context;
  \<^item> \<open>filter_pk_in\<close>: \<^verbatim>\<open>list(model_cls.objects.filter(pk__in=pks))\<close>;
  \<^item> \<open>filter_pk_in_delete\<close>: \<^verbatim>\<open>model_cls.objects.filter(pk__in=pks).delete()\<close>;
  \<^item> \<open>super_bulk_update\<close>, \<open>super_bulk_create\<close>: the base manager's
    \<^verbatim>\<open>bulk_update\<close> and \<^verbatim>\<open>bulk_create\<close>;
  \<^item> \<open>all_objects\<close>: \<^verbatim>\<open>list(self.all())\<close>.
\<close>

record 'db env =
  model :: pyclass
  engine_run :: "pyclass \<Rightarrow> event \<Rightarrow> ref list \<Rightarrow> ref list option \<Rightarrow> ref \<Rightarrow> (unit, 'db) action"
  new_context :: "pyclass \<Rightarrow> (ref, 'db) action"
  filter_pk_in :: "pyval list \<Rightarrow> (ref list, 'db) action"
  filter_pk_in_delete :: "pyval list \<Rightarrow> (unit, 'db) action"
  super_bulk_update :: "ref list \<Rightarrow> string list \<Rightarrow> nat option \<Rightarrow> (unit, 'db) action"
  super_bulk_create :: "ref list \<Rightarrow> nat option \<Rightarrow> bool \<Rightarrow> (ref list, 'db) action"
  all_objects :: "(ref list, 'db) action"

subsection \<open>Sequencing, raising and the transaction\<close>

definition return_m :: "'a \<Rightarrow> ('a, 'db) m" where
  "return_m a = (\<lambda>s. (Inr a, s))"

definition raise_m :: "error \<Rightarrow> ('a, 'db) m" where
  "raise_m e = (\<lambda>s. (Inl e, s))"

definition bind_m :: "('a, 'db) m \<Rightarrow> ('a \<Rightarrow> ('b, 'db) m) \<Rightarrow> ('b, 'db) m" where
  "bind_m m f = (\<lambda>s. case m s of (Inl e, s') \<Rightarrow> (Inl e, s') | (Inr a, s') \<Rightarrow> f a s')"

definition get_world :: "('db world, 'db) m" where
  "get_world = (\<lambda>s. (Inr (fst s), s))"

definition modify_world :: "('db world \<Rightarrow> 'db world) \<Rightarrow> (unit, 'db) m" where
  "modify_world f = (\<lambda>s. (Inr (), (f (fst s), snd s)))"

fun outcome_of :: "error + 'a \<Rightarrow> outcome" where
  "outcome_of (Inl e) = Raised e"
| "outcome_of (Inr a) = Returned"

definition invoke :: "call \<Rightarrow> ('a, 'db) action \<Rightarrow> ('a, 'db) m" where
  "invoke c f = (\<lambda>s. case f (fst s) of (r, w') \<Rightarrow> (r, (w', snd s @ [Called c (outcome_of r)])))"

definition route :: "routed \<Rightarrow> ('a, 'db) m \<Rightarrow> ('a, 'db) m" where
  "route c body = (\<lambda>s. body (fst s, snd s @ [Routed c]))"

text \<open>
  Modelled from the spec: \<^verbatim>\<open>transaction.atomic\<close> is Django's, not this repository's.
  Section 6 of the spec gives it begin-atomic / commit / rollback-on-exception
  semantics: the transaction is entered before the body runs; when the body returns
  it is committed; when the body raises, the persisted state is put back to what it
  was on entry and the same error is raised again. Objects in memory are not restored.
  As a decorator it wraps the whole method, so it is entered before the first
  statement of the method.
\<close>

definition atomic :: "('a, 'db) m \<Rightarrow> ('a, 'db) m" where
  "atomic body = (\<lambda>s. case body (fst s, snd s @ [Atomic_begin]) of
       (Inl e, s') \<Rightarrow> (Inl e, ((fst s')\<lparr>db := db (fst s)\<rparr>, snd s' @ [Atomic_rollback]))
     | (Inr a, s') \<Rightarrow> (Inr a, (fst s', snd s' @ [Atomic_commit])))"

subsection \<open>The manager\<close>

definition CHUNK_SIZE :: nat where
  "CHUNK_SIZE = 200"

text \<open>\<^verbatim>\<open>any(not isinstance(obj, model_cls) for obj in objs)\<close>\<close>

definition any_not_instance :: "'db world \<Rightarrow> pyclass \<Rightarrow> ref list \<Rightarrow> bool" where
  "any_not_instance w model_cls objs = list_ex (\<lambda>r. \<not> isinstance (heap w r) model_cls) objs"

text \<open>\<^verbatim>\<open>set(type(obj).__name__ for obj in objs)\<close>\<close>

definition type_names :: "'db world \<Rightarrow> ref list \<Rightarrow> string set" where
  "type_names w objs = set (map (\<lambda>r. class_name (obj_class (heap w r))) objs)"

text \<open>
  The type check shared by the three bulk methods; \<open>who\<close> is the method's name in the
  message, which also holds \<^verbatim>\<open>model_cls.__name__\<close> and the names of the batch's types.
\<close>

definition check_types :: "string \<Rightarrow> pyclass \<Rightarrow> ref list \<Rightarrow> (unit, 'db) m" where
  "check_types who model_cls objs =
     bind_m get_world (\<lambda>w.
       if any_not_instance w model_cls objs
       then raise_m (TypeError who (class_name model_cls) (type_names w objs))
       else return_m ())"

text \<open>
  \<^verbatim>\<open>for i in range(0, len(objs), self.CHUNK_SIZE): chunk = objs[i : i + self.CHUNK_SIZE]\<close>
  with the base manager's \<^verbatim>\<open>bulk_update\<close> on each chunk.
\<close>

function update_chunks ::
  "'db env \<Rightarrow> ref list \<Rightarrow> string list \<Rightarrow> nat option \<Rightarrow> nat \<Rightarrow> (unit, 'db) m" where
  "update_chunks env objs flds batch_size i =
     (if i < length objs
      then bind_m
             (invoke (Super_bulk_update (take CHUNK_SIZE (drop i objs)) flds batch_size)
                (super_bulk_update env (take CHUNK_SIZE (drop i objs)) flds batch_size))
             (\<lambda>_. update_chunks env objs flds batch_size (i + CHUNK_SIZE))
      else return_m ())"
  by pat_completeness auto
termination
  by (relation "measure (\<lambda>(env, objs, flds, batch_size, i). length objs - i)")
     (auto simp: CHUNK_SIZE_def)

declare update_chunks.simps [simp del]

text \<open>
  The same loop in \<^verbatim>\<open>bulk_create\<close>, with \<^verbatim>\<open>result.extend(...)\<close> on what the base
  manager's \<^verbatim>\<open>bulk_create\<close> returns for the chunk.
\<close>

function create_chunks ::
  "'db env \<Rightarrow> ref list \<Rightarrow> nat option \<Rightarrow> bool \<Rightarrow> nat \<Rightarrow> ref list \<Rightarrow> (ref list, 'db) m" where
  "create_chunks env objs batch_size ignore_conflicts i result =
     (if i < length objs
      then bind_m
             (invoke (Super_bulk_create (take CHUNK_SIZE (drop i objs)) batch_size ignore_conflicts)
                (super_bulk_create env (take CHUNK_SIZE (drop i objs)) batch_size ignore_conflicts))
             (\<lambda>created. create_chunks env objs batch_size ignore_conflicts (i + CHUNK_SIZE)
                           (result @ created))
      else return_m result)"
  by pat_completeness auto
termination
  by (relation "measure (\<lambda>(env, objs, batch_size, ignore_conflicts, i, result). length objs - i)")
     (auto simp: CHUNK_SIZE_def)

declare create_chunks.simps [simp del]

definition bulk_update ::
  "'db env \<Rightarrow> ref list \<Rightarrow> string list \<Rightarrow> nat option \<Rightarrow> bool \<Rightarrow> (ref list, 'db) m" where
  "bulk_update env objs flds batch_size bypass_hooks =
     atomic
       (if objs = [] then return_m []
        else
          bind_m (check_types ''bulk_update'' (model env) objs) (\<lambda>_.
          bind_m
            (if \<not> bypass_hooks
             then
               bind_m get_world (\<lambda>w.
               bind_m (invoke (Filter_pk_in (map (\<lambda>r. pk (heap w r)) objs))
                         (filter_pk_in env (map (\<lambda>r. pk (heap w r)) objs))) (\<lambda>originals.
               bind_m (invoke (New_TriggerContext (model env)) (new_context env (model env))) (\<lambda>ctx.
               bind_m (invoke (Engine_run (model env) BEFORE_UPDATE objs (Some originals) ctx)
                         (engine_run env (model env) BEFORE_UPDATE objs (Some originals) ctx)) (\<lambda>_.
               return_m (Some (originals, ctx))))))
             else return_m None) (\<lambda>hooked.
          bind_m (update_chunks env objs flds batch_size 0) (\<lambda>_.
          bind_m
            (case hooked of
               Some (originals, ctx) \<Rightarrow>
                 invoke (Engine_run (model env) AFTER_UPDATE objs (Some originals) ctx)
                   (engine_run env (model env) AFTER_UPDATE objs (Some originals) ctx)
             | None \<Rightarrow> return_m ()) (\<lambda>_.
          return_m objs)))))"

definition bulk_create ::
  "'db env \<Rightarrow> ref list \<Rightarrow> nat option \<Rightarrow> bool \<Rightarrow> bool \<Rightarrow> (ref list, 'db) m" where
  "bulk_create env objs batch_size ignore_conflicts bypass_hooks =
     atomic
       (bind_m (check_types ''bulk_create'' (model env) objs) (\<lambda>_.
        bind_m
          (if \<not> bypass_hooks
           then
             bind_m (invoke (New_TriggerContext (model env)) (new_context env (model env))) (\<lambda>ctx.
             bind_m (invoke (Engine_run (model env) BEFORE_CREATE objs None ctx)
                       (engine_run env (model env) BEFORE_CREATE objs None ctx)) (\<lambda>_.
             return_m (Some ctx)))
           else return_m None) (\<lambda>hooked.
        bind_m (create_chunks env objs batch_size ignore_conflicts 0 []) (\<lambda>result.
        bind_m
          (case hooked of
             Some ctx \<Rightarrow>
               invoke (Engine_run (model env) AFTER_CREATE result None ctx)
                 (engine_run env (model env) AFTER_CREATE result None ctx)
           | None \<Rightarrow> return_m ()) (\<lambda>_.
        return_m result)))))"

text \<open>
  In \<^verbatim>\<open>bulk_delete\<close> the context is built outside the \<^verbatim>\<open>if not bypass_hooks\<close>, and
  the primary keys are read after the BEFORE_DELETE hooks have run.
\<close>

definition bulk_delete ::
  "'db env \<Rightarrow> ref list \<Rightarrow> nat option \<Rightarrow> bool \<Rightarrow> (ref list, 'db) m" where
  "bulk_delete env objs batch_size bypass_hooks =
     atomic
       (if objs = [] then return_m []
        else
          bind_m (check_types ''bulk_delete'' (model env) objs) (\<lambda>_.
          bind_m (invoke (New_TriggerContext (model env)) (new_context env (model env))) (\<lambda>ctx.
          bind_m
            (if \<not> bypass_hooks
             then invoke (Engine_run (model env) BEFORE_DELETE objs None ctx)
                    (engine_run env (model env) BEFORE_DELETE objs None ctx)
             else return_m ()) (\<lambda>_.
          bind_m get_world (\<lambda>w.
          bind_m (invoke (Filter_pk_in_delete
                            (filter (\<lambda>v. v \<noteq> PyNone) (map (\<lambda>r. pk (heap w r)) objs)))
                    (filter_pk_in_delete env
                       (filter (\<lambda>v. v \<noteq> PyNone) (map (\<lambda>r. pk (heap w r)) objs)))) (\<lambda>_.
          bind_m
            (if \<not> bypass_hooks
             then invoke (Engine_run (model env) AFTER_DELETE objs None ctx)
                    (engine_run env (model env) AFTER_DELETE objs None ctx)
             else return_m ()) (\<lambda>_.
          return_m objs)))))))"

text \<open>
  \<^verbatim>\<open>for key, value in kwargs.items(): for obj in objs: setattr(obj, key, value)\<close>
\<close>

definition set_all :: "ref list \<Rightarrow> string \<Rightarrow> pyval \<Rightarrow> 'db world \<Rightarrow> 'db world" where
  "set_all objs key v w =
     fold (\<lambda>r w'. w'\<lparr>heap := (heap w')(r := setattr (heap w' r) key v)\<rparr>) objs w"

definition apply_kwargs :: "(string \<times> pyval) list \<Rightarrow> ref list \<Rightarrow> 'db world \<Rightarrow> 'db world" where
  "apply_kwargs kwargs objs w = fold (\<lambda>(key, v) w'. set_all objs key v w') kwargs w"

definition update :: "'db env \<Rightarrow> (string \<times> pyval) list \<Rightarrow> (nat, 'db) m" where
  "update env kwargs =
     atomic
       (bind_m (invoke All_objects (all_objects env)) (\<lambda>objs.
        if objs = [] then return_m 0
        else
          bind_m (modify_world (apply_kwargs kwargs objs)) (\<lambda>_.
          bind_m (route (Self_bulk_update objs (map fst kwargs) None False)
                    (bulk_update env objs (map fst kwargs) None False)) (\<lambda>_.
          return_m (length objs)))))"

definition delete :: "'db env \<Rightarrow> (nat, 'db) m" where
  "delete env =
     atomic
       (bind_m (invoke All_objects (all_objects env)) (\<lambda>objs.
        if objs = [] then return_m 0
        else
          bind_m (route (Self_bulk_delete objs None False)
                    (bulk_delete env objs None False)) (\<lambda>_.
          return_m (length objs))))"

definition save :: "'db env \<Rightarrow> ref \<Rightarrow> (ref, 'db) m" where
  "save env obj =
     atomic
       (bind_m get_world (\<lambda>w.
        bind_m
          (if truthy (pk (heap w obj))
           then
             bind_m (route (Self_bulk_update [obj]
                              (filter (\<lambda>name. name \<noteq> ''id'') (meta_fields (heap w obj))) None False)
                       (bulk_update env [obj]
                          (filter (\<lambda>name. name \<noteq> ''id'') (meta_fields (heap w obj))) None False))
               (\<lambda>_. return_m ())
           else
             bind_m (route (Self_bulk_create [obj] None False False)
                       (bulk_create env [obj] None False False))
               (\<lambda>_. return_m ())) (\<lambda>_.
        return_m obj)))"

section \<open>Reference definitions\<close>

subsection \<open>Chunks\<close>

text \<open>
  The chunks of at most \<open>n\<close> elements of a list, in order: what the spec calls
  writing in chunks of a fixed maximum size.
\<close>

function chunks_of :: "nat \<Rightarrow> 'a list \<Rightarrow> 'a list list" where
  "chunks_of n xs = (if n = 0 \<or> xs = [] then [] else take n xs # chunks_of n (drop n xs))"
  by pat_completeness auto
termination
  by (relation "measure (\<lambda>(n, xs). length xs)") auto

declare chunks_of.simps [simp del]

text \<open>
  The base manager's primitive on each chunk of a list of chunks, stopping at the first
  one that raises. The loops of \<^verbatim>\<open>bulk_update\<close> and \<^verbatim>\<open>bulk_create\<close> are shown below to
  be these, on \<open>chunks_of CHUNK_SIZE objs\<close>.
\<close>

fun raw_update_all ::
  "'db env \<Rightarrow> ref list list \<Rightarrow> string list \<Rightarrow> nat option \<Rightarrow> (unit, 'db) m" where
  "raw_update_all env [] flds batch_size = return_m ()"
| "raw_update_all env (c # cs) flds batch_size =
     bind_m (invoke (Super_bulk_update c flds batch_size) (super_bulk_update env c flds batch_size))
       (\<lambda>_. raw_update_all env cs flds batch_size)"

fun raw_create_all ::
  "'db env \<Rightarrow> ref list list \<Rightarrow> nat option \<Rightarrow> bool \<Rightarrow> ref list \<Rightarrow> (ref list, 'db) m" where
  "raw_create_all env [] batch_size ignore_conflicts result = return_m result"
| "raw_create_all env (c # cs) batch_size ignore_conflicts result =
     bind_m (invoke (Super_bulk_create c batch_size ignore_conflicts)
               (super_bulk_create env c batch_size ignore_conflicts))
       (\<lambda>created. raw_create_all env cs batch_size ignore_conflicts (result @ created))"

subsection \<open>The raw write alone\<close>

text \<open>
  What the underlying write does to the world when nothing else runs: no hook, no
  fetch, no trace. \<open>raw_update\<close> and \<open>raw_create\<close> write chunk by chunk;
  \<open>raw_delete\<close> is the one delete by the primary keys that are not \<^verbatim>\<open>None\<close>.
\<close>

fun write_updates ::
  "'db env \<Rightarrow> ref list list \<Rightarrow> string list \<Rightarrow> nat option \<Rightarrow> (unit, 'db) action" where
  "write_updates env [] flds batch_size w = (Inr (), w)"
| "write_updates env (c # cs) flds batch_size w =
     (case super_bulk_update env c flds batch_size w of
        (Inl e, w') \<Rightarrow> (Inl e, w')
      | (Inr u, w') \<Rightarrow> write_updates env cs flds batch_size w')"

fun write_creates ::
  "'db env \<Rightarrow> ref list list \<Rightarrow> nat option \<Rightarrow> bool \<Rightarrow> ref list \<Rightarrow> (ref list, 'db) action" where
  "write_creates env [] batch_size ignore_conflicts result w = (Inr result, w)"
| "write_creates env (c # cs) batch_size ignore_conflicts result w =
     (case super_bulk_create env c batch_size ignore_conflicts w of
        (Inl e, w') \<Rightarrow> (Inl e, w')
      | (Inr created, w') \<Rightarrow> write_creates env cs batch_size ignore_conflicts (result @ created) w')"

definition raw_update ::
  "'db env \<Rightarrow> ref list \<Rightarrow> string list \<Rightarrow> nat option \<Rightarrow> (ref list, 'db) action" where
  "raw_update env objs flds batch_size w =
     (case write_updates env (chunks_of CHUNK_SIZE objs) flds batch_size w of
        (Inl e, w') \<Rightarrow> (Inl e, w')
      | (Inr u, w') \<Rightarrow> (Inr objs, w'))"

definition raw_create :: "'db env \<Rightarrow> ref list \<Rightarrow> nat option \<Rightarrow> bool \<Rightarrow> (ref list, 'db) action" where
  "raw_create env objs batch_size ignore_conflicts w =
     write_creates env (chunks_of CHUNK_SIZE objs) batch_size ignore_conflicts [] w"

definition raw_delete :: "'db env \<Rightarrow> ref list \<Rightarrow> (ref list, 'db) action" where
  "raw_delete env objs w =
     (case filter_pk_in_delete env
             (map (\<lambda>r. pk (heap w r)) (filter (\<lambda>r. pk (heap w r) \<noteq> PyNone) objs)) w of
        (Inl e, w') \<Rightarrow> (Inl e, w')
      | (Inr u, w') \<Rightarrow> (Inr objs, w'))"

text \<open>What a transaction entered at \<open>w0\<close> leaves of a write: on an error, the old rows.\<close>

definition in_transaction ::
  "'db world \<Rightarrow> (error + 'a) \<times> 'db world \<Rightarrow> (error + 'a) \<times> 'db world" where
  "in_transaction w0 res =
     (case res of (Inl e, w') \<Rightarrow> (Inl e, w'\<lparr>db := db w0\<rparr>) | (Inr a, w') \<Rightarrow> (Inr a, w'))"

text \<open>The result of a run and the world it leaves, without the trace.\<close>

definition result_and_world :: "(error + 'a) \<times> 'db state \<Rightarrow> (error + 'a) \<times> 'db world" where
  "result_and_world out = (fst out, fst (snd out))"

subsection \<open>Predicates on the trace\<close>

text \<open>
  \<open>clean\<close>: no recorded call has raised. \<open>ends_raising e\<close>: the last recorded
  call raised \<open>e\<close> and no call before it raised (the entries of the transaction
  and of routing are not calls). \<open>manager_error\<close>: the \<^verbatim>\<open>TypeError\<close> that the type
  check of a bulk method raises. \<open>propagated\<close>: the error a run ends with is the one
  its last call raised, or the manager's own.
\<close>

fun is_raise :: "entry \<Rightarrow> bool" where
  "is_raise (Called c (Raised e)) = True"
| "is_raise (Called c Returned) = False"
| "is_raise (Routed r) = False"
| "is_raise Atomic_begin = False"
| "is_raise Atomic_commit = False"
| "is_raise Atomic_rollback = False"

definition clean :: "entry list \<Rightarrow> bool" where
  "clean es = list_all (\<lambda>x. \<not> is_raise x) es"

fun is_call :: "entry \<Rightarrow> bool" where
  "is_call (Called c out) = True"
| "is_call (Routed r) = False"
| "is_call Atomic_begin = False"
| "is_call Atomic_commit = False"
| "is_call Atomic_rollback = False"

fun raises :: "error \<Rightarrow> entry \<Rightarrow> bool" where
  "raises e (Called c (Raised e')) = (e' = e)"
| "raises e (Called c Returned) = False"
| "raises e (Routed r) = False"
| "raises e Atomic_begin = False"
| "raises e Atomic_commit = False"
| "raises e Atomic_rollback = False"

definition ends_raising :: "error \<Rightarrow> entry list \<Rightarrow> bool" where
  "ends_raising e es =
     (filter is_call es \<noteq> [] \<and> raises e (last (filter is_call es)) \<and>
      clean (butlast (filter is_call es)))"

fun manager_error :: "pyclass \<Rightarrow> error \<Rightarrow> bool" where
  "manager_error mdl (TypeError who m names) =
     (m = class_name mdl \<and> who \<in> set [''bulk_update'', ''bulk_create'', ''bulk_delete''])"
| "manager_error mdl (HookError msg) = False"
| "manager_error mdl (StorageError msg) = False"

definition propagated :: "pyclass \<Rightarrow> error \<Rightarrow> entry list \<Rightarrow> bool" where
  "propagated mdl e es = (ends_raising e es \<or> (clean es \<and> manager_error mdl e))"

text \<open>
  \<open>faithful\<close>: a run only appends to the trace; when it returns, no call it made
  has raised; when it raises, the error is \<open>propagated\<close>. \<open>all_or_nothing\<close> adds
  that a run that raises ends by the rollback of its transaction and leaves the
  persisted state as it found it.
\<close>

definition faithful :: "pyclass \<Rightarrow> ('a, 'db) m \<Rightarrow> bool" where
  "faithful mdl m = (\<forall>s. case m s of
       (Inr a, s') \<Rightarrow> (\<exists>new. snd s' = snd s @ new \<and> clean new)
     | (Inl e, s') \<Rightarrow> (\<exists>new. snd s' = snd s @ new \<and> propagated mdl e new))"

definition all_or_nothing :: "pyclass \<Rightarrow> ('a, 'db) m \<Rightarrow> bool" where
  "all_or_nothing mdl m = (\<forall>s. case m s of
       (Inr a, s') \<Rightarrow> (\<exists>new. snd s' = snd s @ new \<and> clean new)
     | (Inl e, s') \<Rightarrow> db (fst s') = db (fst s) \<and>
                        (\<exists>new. snd s' = snd s @ new \<and> propagated mdl e new \<and>
                               last new = Atomic_rollback))"

text \<open>
  What a method that returns has done: \<open>on_return out P\<close> says \<open>P\<close> of the value
  and the state of a run that returned. The traces of the bulk methods that completed
  fully follow the spec's words: inside the transaction, the BEFORE hooks (unless
  bypassed), every chunk written, the AFTER hooks (unless bypassed), and the commit.
\<close>

definition on_return :: "(error + 'a) \<times> 'db state \<Rightarrow> ('a \<Rightarrow> 'db state \<Rightarrow> bool) \<Rightarrow> bool" where
  "on_return out P = (case out of (Inl e, s') \<Rightarrow> True | (Inr a, s') \<Rightarrow> P a s')"

definition hooked :: "bool \<Rightarrow> entry list \<Rightarrow> entry list" where
  "hooked bypass_hooks es = (if bypass_hooks then [] else es)"

definition create_completed ::
  "'db env \<Rightarrow> ref list \<Rightarrow> nat option \<Rightarrow> bool \<Rightarrow> bool \<Rightarrow> ref list \<Rightarrow> entry list \<Rightarrow> bool" where
  "create_completed env objs batch_size ignore_conflicts bypass_hooks res new =
     (\<exists>ctx. new =
        [Atomic_begin]
        @ hooked bypass_hooks
            [Called (New_TriggerContext (model env)) Returned,
             Called (Engine_run (model env) BEFORE_CREATE objs None ctx) Returned]
        @ map (\<lambda>c. Called (Super_bulk_create c batch_size ignore_conflicts) Returned)
            (chunks_of CHUNK_SIZE objs)
        @ hooked bypass_hooks
            [Called (Engine_run (model env) AFTER_CREATE res None ctx) Returned]
        @ [Atomic_commit])"

definition update_completed ::
  "'db env \<Rightarrow> ref list \<Rightarrow> string list \<Rightarrow> nat option \<Rightarrow> bool \<Rightarrow> ref list \<Rightarrow> entry list \<Rightarrow> bool" where
  "update_completed env objs flds batch_size bypass_hooks res new =
     (res = objs \<and>
      (if objs = [] then new = [Atomic_begin, Atomic_commit]
       else \<exists>pks originals ctx. new =
         [Atomic_begin]
         @ hooked bypass_hooks
             [Called (Filter_pk_in pks) Returned,
              Called (New_TriggerContext (model env)) Returned,
              Called (Engine_run (model env) BEFORE_UPDATE objs (Some originals) ctx) Returned]
         @ map (\<lambda>c. Called (Super_bulk_update c flds batch_size) Returned)
             (chunks_of CHUNK_SIZE objs)
         @ hooked bypass_hooks
             [Called (Engine_run (model env) AFTER_UPDATE objs (Some originals) ctx) Returned]
         @ [Atomic_commit]))"

definition delete_completed :: "'db env \<Rightarrow> ref list \<Rightarrow> bool \<Rightarrow> ref list \<Rightarrow> entry list \<Rightarrow> bool" where
  "delete_completed env objs bypass_hooks res new =
     (res = objs \<and>
      (if objs = [] then new = [Atomic_begin, Atomic_commit]
       else \<exists>pks ctx. new =
         [Atomic_begin, Called (New_TriggerContext (model env)) Returned]
         @ hooked bypass_hooks
             [Called (Engine_run (model env) BEFORE_DELETE objs None ctx) Returned]
         @ [Called (Filter_pk_in_delete pks) Returned]
         @ hooked bypass_hooks
             [Called (Engine_run (model env) AFTER_DELETE objs None ctx) Returned]
         @ [Atomic_commit]))"

text \<open>
  Kinds of entries: a call of the manager to one of its own bulk methods, a run of the
  hook engine, the fetch of the originals. An entry is \<open>quiet\<close> when it is neither
  a hook run nor a fetch. \<open>emits P\<close>: a run only appends entries that satisfy
  \<open>P\<close>.
\<close>

fun is_routed :: "entry \<Rightarrow> bool" where
  "is_routed (Routed r) = True"
| "is_routed (Called c out) = False"
| "is_routed Atomic_begin = False"
| "is_routed Atomic_commit = False"
| "is_routed Atomic_rollback = False"

fun is_hook_call :: "entry \<Rightarrow> bool" where
  "is_hook_call (Called (Engine_run mdl ev objs originals ctx) out) = True"
| "is_hook_call (Called (New_TriggerContext mdl) out) = False"
| "is_hook_call (Called (Filter_pk_in pks) out) = False"
| "is_hook_call (Called (Filter_pk_in_delete pks) out) = False"
| "is_hook_call (Called (Super_bulk_update objs flds bs) out) = False"
| "is_hook_call (Called (Super_bulk_create objs bs ic) out) = False"
| "is_hook_call (Called All_objects out) = False"
| "is_hook_call (Routed r) = False"
| "is_hook_call Atomic_begin = False"
| "is_hook_call Atomic_commit = False"
| "is_hook_call Atomic_rollback = False"

fun is_fetch :: "entry \<Rightarrow> bool" where
  "is_fetch (Called (Filter_pk_in pks) out) = True"
| "is_fetch (Called (Engine_run mdl ev objs originals ctx) out) = False"
| "is_fetch (Called (New_TriggerContext mdl) out) = False"
| "is_fetch (Called (Filter_pk_in_delete pks) out) = False"
| "is_fetch (Called (Super_bulk_update objs flds bs) out) = False"
| "is_fetch (Called (Super_bulk_create objs bs ic) out) = False"
| "is_fetch (Called All_objects out) = False"
| "is_fetch (Routed r) = False"
| "is_fetch Atomic_begin = False"
| "is_fetch Atomic_commit = False"
| "is_fetch Atomic_rollback = False"

definition quiet :: "entry \<Rightarrow> bool" where
  "quiet x = (\<not> is_hook_call x \<and> \<not> is_fetch x)"

definition emits :: "(entry \<Rightarrow> bool) \<Rightarrow> ('a, 'db) m \<Rightarrow> bool" where
  "emits P m = (\<forall>s. \<exists>new. snd (snd (m s)) = snd s @ new \<and> list_all P new)"

subsection \<open>A concrete environment\<close>

text \<open>
  Classes: Account and Invoice, both subclasses of Model, and a second class that is
  also named Account. Objects: reference 500 is an Invoice, whose primary-key field is
  \<^verbatim>\<open>code\<close>; reference 600 is an instance of the other class named Account; every
  other reference is an Account with the fields \<^verbatim>\<open>id\<close> and \<^verbatim>\<open>name\<close>, whose \<^verbatim>\<open>id\<close> is
  its reference, or \<^verbatim>\<open>None\<close> (not saved yet) from reference 1000 on. So Account 0 has
  the primary key \<open>0\<close>. The persisted state is the journal of the writes made. The
  hook engine raises on the events listed in \<open>failing\<close> and does nothing otherwise;
  the fetch of originals finds nothing; the writes append to the journal.
\<close>

definition Model :: pyclass where
  "Model = PyClass 0 ''Model''"

definition Account :: pyclass where
  "Account = PyClass 1 ''Account''"

definition Invoice :: pyclass where
  "Invoice = PyClass 2 ''Invoice''"

definition Other_Account :: pyclass where
  "Other_Account = PyClass 3 ''Account''"

definition sample_heap :: "ref \<Rightarrow> pyobj" where
  "sample_heap r =
     (if r = 500
      then \<lparr>obj_class = Invoice, class_supers = [Model], meta_fields = [''code'', ''total''],
            meta_pk = ''code'', attrs = (\<lambda>a. if a = ''code'' then PyStr ''A1'' else PyNone)\<rparr>
      else if r = 600
      then \<lparr>obj_class = Other_Account, class_supers = [Model], meta_fields = [''id'', ''name''],
            meta_pk = ''id'', attrs = (\<lambda>a. if a = ''id'' then PyInt 600 else PyNone)\<rparr>
      else \<lparr>obj_class = Account, class_supers = [Model], meta_fields = [''id'', ''name''],
            meta_pk = ''id'',
            attrs = (\<lambda>a. if a = ''id'' \<and> r < 1000 then PyInt (int r) else PyNone)\<rparr>)"

definition sample_world :: "call list world" where
  "sample_world = \<lparr>heap = sample_heap, db = []\<rparr>"

definition sample_env :: "pyclass \<Rightarrow> event list \<Rightarrow> call list env" where
  "sample_env mdl failing =
     \<lparr>model = mdl,
      engine_run = (\<lambda>m ev objs originals ctx w.
         if ev \<in> set failing then (Inl (HookError ''hook failed''), w) else (Inr (), w)),
      new_context = (\<lambda>m w. (Inr 0, w)),
      filter_pk_in = (\<lambda>pks w. (Inr [], w)),
      filter_pk_in_delete = (\<lambda>pks w. (Inr (), w\<lparr>db := db w @ [Filter_pk_in_delete pks]\<rparr>)),
      super_bulk_update = (\<lambda>chunk flds bs w.
         (Inr (), w\<lparr>db := db w @ [Super_bulk_update chunk flds bs]\<rparr>)),
      super_bulk_create = (\<lambda>chunk bs ic w.
         (Inr chunk, w\<lparr>db := db w @ [Super_bulk_create chunk bs ic]\<rparr>)),
      all_objects = (\<lambda>w. (Inr [2, 3], w))\<rparr>"

text \<open>A batch of 201 Accounts: two chunks.\<close>

definition sample_batch :: "ref list" where
  "sample_batch = [1..<202]"

section \<open>Lemmas\<close>

subsection \<open>Chunks\<close>

text \<open>
  The loops of the bulk methods, which step an index by \<open>CHUNK_SIZE\<close> and slice,
  visit the chunks of the batch.
\<close>

lemma chunk_size_pos: "0 < CHUNK_SIZE"
  by (simp add: CHUNK_SIZE_def)

lemma chunks_of_Nil: "chunks_of n [] = []"
  by (simp add: chunks_of.simps)

lemma chunks_of_step: "0 < n \<Longrightarrow> xs \<noteq> [] \<Longrightarrow> chunks_of n xs = take n xs # chunks_of n (drop n xs)"
  by (subst chunks_of.simps) simp

lemma concat_chunks_of: "0 < n \<Longrightarrow> concat (chunks_of n xs) = xs"
proof (induction n xs rule: chunks_of.induct)
  case (1 n xs)
  show ?case
  proof (cases "xs = []")
    case True
    then show ?thesis by (simp add: chunks_of_Nil)
  next
    case False
    with 1 show ?thesis by (simp add: chunks_of_step)
  qed
qed

lemma chunks_of_bounds: "0 < n \<Longrightarrow> list_all (\<lambda>c. c \<noteq> [] \<and> length c \<le> n) (chunks_of n xs)"
proof (induction n xs rule: chunks_of.induct)
  case (1 n xs)
  show ?case
  proof (cases "xs = []")
    case True
    then show ?thesis by (simp add: chunks_of_Nil)
  next
    case False
    with 1 show ?thesis by (simp add: chunks_of_step)
  qed
qed

lemma chunks_of_many: "0 < n \<Longrightarrow> n < length xs \<Longrightarrow> 1 < length (chunks_of n xs)"
proof -
  assume n: "0 < n" and l: "n < length xs"
  then have "xs \<noteq> []" and "drop n xs \<noteq> []" by auto
  then show ?thesis using n by (simp add: chunks_of_step)
qed

lemma chunks_of_two:
  assumes "n < length xs" and "length xs \<le> 2 * n"
  shows "chunks_of n xs = [take n xs, drop n xs]"
proof -
  from assms have n: "0 < n" and ne: "xs \<noteq> []" and ne': "drop n xs \<noteq> []" by auto
  from assms have "take n (drop n xs) = drop n xs" and "drop n (drop n xs) = []" by auto
  then show ?thesis
    by (simp add: chunks_of_step [OF n ne] chunks_of_step [OF n ne'] chunks_of_Nil)
qed

lemma chunks_of_one:
  assumes "xs \<noteq> []" and "length xs \<le> n"
  shows "chunks_of n xs = [xs]"
proof -
  from assms have n: "0 < n" by (cases xs) auto
  from assms(2) have "take n xs = xs" and "drop n xs = []" by auto
  then show ?thesis by (simp add: chunks_of_step [OF n assms(1)] chunks_of_Nil)
qed

lemma update_chunks_raw:
  "update_chunks env objs flds bs i = raw_update_all env (chunks_of CHUNK_SIZE (drop i objs)) flds bs"
proof (induction env objs flds bs i rule: update_chunks.induct)
  case (1 env objs flds bs i)
  show ?case
  proof (cases "i < length objs")
    case True
    then have ne: "drop i objs \<noteq> []" by simp
    show ?thesis
      using True 1
      by (subst update_chunks.simps)
         (simp add: chunks_of_step [OF chunk_size_pos ne] add.commute)
  next
    case False
    then show ?thesis
      by (subst update_chunks.simps) (simp add: chunks_of_Nil)
  qed
qed

lemma create_chunks_raw:
  "create_chunks env objs bs ic i result =
     raw_create_all env (chunks_of CHUNK_SIZE (drop i objs)) bs ic result"
proof (induction env objs bs ic i result rule: create_chunks.induct)
  case (1 env objs bs ic i result)
  show ?case
  proof (cases "i < length objs")
    case True
    then have ne: "drop i objs \<noteq> []" by simp
    show ?thesis
      using True 1
      by (subst create_chunks.simps)
         (simp add: chunks_of_step [OF chunk_size_pos ne] add.commute)
  next
    case False
    then show ?thesis
      by (subst create_chunks.simps) (simp add: chunks_of_Nil)
  qed
qed

subsection \<open>Running a method\<close>

lemma return_m_run: "return_m a s = (Inr a, s)"
  by (simp add: return_m_def)

lemma raise_m_run: "raise_m e s = (Inl e, s)"
  by (simp add: raise_m_def)

lemma get_world_run: "get_world s = (Inr (fst s), s)"
  by (simp add: get_world_def)

lemma modify_world_run: "modify_world f s = (Inr (), (f (fst s), snd s))"
  by (simp add: modify_world_def)

lemma bind_m_run:
  "bind_m m f s = (case m s of (Inl e, s') \<Rightarrow> (Inl e, s') | (Inr a, s') \<Rightarrow> f a s')"
  by (simp add: bind_m_def)

lemma invoke_run:
  "invoke c f s = (case f (fst s) of (r, w') \<Rightarrow> (r, (w', snd s @ [Called c (outcome_of r)])))"
  by (simp add: invoke_def)

lemma route_run: "route c body s = body (fst s, snd s @ [Routed c])"
  by (simp add: route_def)

lemma atomic_run:
  "atomic body s = (case body (fst s, snd s @ [Atomic_begin]) of
       (Inl e, s') \<Rightarrow> (Inl e, ((fst s')\<lparr>db := db (fst s)\<rparr>, snd s' @ [Atomic_rollback]))
     | (Inr a, s') \<Rightarrow> (Inr a, (fst s', snd s' @ [Atomic_commit])))"
  by (simp add: atomic_def)

lemmas run_simps =
  return_m_run raise_m_run get_world_run modify_world_run bind_m_run invoke_run route_run
  atomic_run

lemma bind_return_left: "bind_m (return_m a) f = f a"
  by (rule ext) (simp add: bind_m_run return_m_run)

lemma check_types_run:
  "check_types who mdl objs s =
     (if any_not_instance (fst s) mdl objs
      then (Inl (TypeError who (class_name mdl) (type_names (fst s) objs)), s)
      else (Inr (), s))"
  by (simp add: check_types_def run_simps)

lemma any_not_instance_iff:
  "any_not_instance w mdl objs = (\<exists>r\<in>set objs. \<not> isinstance (heap w r) mdl)"
  by (simp add: any_not_instance_def list_ex_iff)

lemma type_mismatch_any:
  "r \<in> set objs \<Longrightarrow> \<not> isinstance (heap w r) mdl \<Longrightarrow> any_not_instance w mdl objs"
  by (auto simp: any_not_instance_iff)

lemma valid_batch:
  "list_all (\<lambda>r. isinstance (heap w r) mdl) objs \<Longrightarrow> \<not> any_not_instance w mdl objs"
  by (auto simp: any_not_instance_iff list_all_iff)

lemma filter_pks:
  "filter (\<lambda>v. v \<noteq> PyNone) (map (\<lambda>r. pk (heap w r)) objs) =
   map (\<lambda>r. pk (heap w r)) (filter (\<lambda>r. pk (heap w r) \<noteq> PyNone) objs)"
  by (simp add: filter_map comp_def)

subsection \<open>Errors pass through, rows are rolled back\<close>

text \<open>
  \<open>faithful\<close> is kept by every way the methods are put together; \<open>atomic\<close>
  turns it into \<open>all_or_nothing\<close>.
\<close>

lemma clean_append: "clean (xs @ ys) = (clean xs \<and> clean ys)"
  by (simp add: clean_def)

lemma clean_filter: "clean es \<Longrightarrow> clean (filter P es)"
  by (induction es) (simp_all add: clean_def)

lemma ends_raising_append: "clean pre \<Longrightarrow> ends_raising e es \<Longrightarrow> ends_raising e (pre @ es)"
  by (simp add: ends_raising_def butlast_append clean_append clean_filter)

lemma ends_raising_in_transaction:
  "ends_raising e es \<Longrightarrow> ends_raising e (Atomic_begin # es @ [Atomic_rollback])"
  by (simp add: ends_raising_def)

lemma propagated_in_transaction:
  "propagated mdl e es \<Longrightarrow> propagated mdl e (Atomic_begin # es @ [Atomic_rollback])"
  by (auto simp: propagated_def ends_raising_in_transaction clean_def)

lemma propagated_append: "clean pre \<Longrightarrow> propagated mdl e es \<Longrightarrow> propagated mdl e (pre @ es)"
  by (auto simp: propagated_def clean_append ends_raising_append)

lemma faithful_return: "faithful mdl (return_m a)"
  by (simp add: faithful_def return_m_run clean_def)

lemma faithful_get_world: "faithful mdl get_world"
  by (simp add: faithful_def get_world_run clean_def)

lemma faithful_modify_world: "faithful mdl (modify_world f)"
  by (simp add: faithful_def modify_world_run clean_def)

lemma faithful_raise: "manager_error mdl e \<Longrightarrow> faithful mdl (raise_m e)"
  by (simp add: faithful_def raise_m_run clean_def propagated_def)

lemma faithful_invoke: "faithful mdl (invoke c f)"
proof -
  have "case invoke c f s of
       (Inr a, s') \<Rightarrow> (\<exists>new. snd s' = snd s @ new \<and> clean new)
     | (Inl e, s') \<Rightarrow> (\<exists>new. snd s' = snd s @ new \<and> propagated mdl e new)" for s
  proof -
    obtain r w' where "f (fst s) = (r, w')" by (cases "f (fst s)")
    then show ?thesis
      by (cases r) (simp_all add: invoke_run clean_def propagated_def ends_raising_def)
  qed
  then show ?thesis unfolding faithful_def by blast
qed

lemma faithful_bind:
  assumes m: "faithful mdl m" and f: "\<And>a. faithful mdl (f a)"
  shows "faithful mdl (bind_m m f)"
proof -
  have "case bind_m m f s of
       (Inr a, s') \<Rightarrow> (\<exists>new. snd s' = snd s @ new \<and> clean new)
     | (Inl e, s') \<Rightarrow> (\<exists>new. snd s' = snd s @ new \<and> propagated mdl e new)" for s
  proof -
    obtain r s1 where Pair: "m s = (r, s1)" by (cases "m s")
    show ?thesis
    proof (cases r)
      case (Inl e)
      with Pair m [unfolded faithful_def, rule_format, of s] show ?thesis
        by (simp add: bind_m_run)
    next
      case (Inr a)
      with Pair m [unfolded faithful_def, rule_format, of s]
      obtain new1 where n1: "snd s1 = snd s @ new1" "clean new1" by auto
      obtain r2 s2 where r2: "f a s1 = (r2, s2)" by (cases "f a s1")
      show ?thesis
      proof (cases r2)
        case (Inl e)
        with r2 f [of a, unfolded faithful_def, rule_format, of s1]
        obtain new2 where "snd s2 = snd s1 @ new2" "propagated mdl e new2" by auto
        with n1 have "snd s2 = snd s @ (new1 @ new2)" "propagated mdl e (new1 @ new2)"
          by (simp_all add: propagated_append)
        then show ?thesis using Pair Inr r2 Inl by (simp add: bind_m_run) blast?
      next
        case (Inr b)
        with r2 f [of a, unfolded faithful_def, rule_format, of s1]
        obtain new2 where "snd s2 = snd s1 @ new2" "clean new2" by auto
        with n1 have "snd s2 = snd s @ (new1 @ new2)" "clean (new1 @ new2)"
          by (simp_all add: clean_append)
        then show ?thesis using Pair \<open>r = Inr a\<close> r2 Inr by (simp add: bind_m_run) blast?
      qed
    qed
  qed
  then show ?thesis unfolding faithful_def by blast
qed

lemma faithful_route:
  assumes "faithful mdl body"
  shows "faithful mdl (route c body)"
proof -
  have "case route c body s of
       (Inr a, s') \<Rightarrow> (\<exists>new. snd s' = snd s @ new \<and> clean new)
     | (Inl e, s') \<Rightarrow> (\<exists>new. snd s' = snd s @ new \<and> propagated mdl e new)" for s
  proof -
    obtain r s1 where Pair: "body (fst s, snd s @ [Routed c]) = (r, s1)"
      by (cases "body (fst s, snd s @ [Routed c])")
    have pre: "clean [Routed c]" by (simp add: clean_def)
    show ?thesis
    proof (cases r)
      case (Inl e)
      with Pair assms [unfolded faithful_def, rule_format, of "(fst s, snd s @ [Routed c])"]
      obtain new where "snd s1 = (snd s @ [Routed c]) @ new" "propagated mdl e new" by auto
      then have "snd s1 = snd s @ ([Routed c] @ new)" "propagated mdl e ([Routed c] @ new)"
        using pre by (simp_all add: propagated_append del: append.simps)
      then show ?thesis using Pair Inl by (simp add: route_run del: append.simps) blast?
    next
      case (Inr a)
      with Pair assms [unfolded faithful_def, rule_format, of "(fst s, snd s @ [Routed c])"]
      obtain new where "snd s1 = (snd s @ [Routed c]) @ new" "clean new" by auto
      then have "snd s1 = snd s @ ([Routed c] @ new)" "clean ([Routed c] @ new)"
        using pre by (simp_all add: clean_append del: append.simps)
      then show ?thesis using Pair Inr by (simp add: route_run del: append.simps) blast?
    qed
  qed
  then show ?thesis unfolding faithful_def by blast
qed

lemma atomic_all_or_nothing:
  assumes "faithful mdl body"
  shows "all_or_nothing mdl (atomic body)"
proof -
  have "case atomic body s of
       (Inr a, s') \<Rightarrow> (\<exists>new. snd s' = snd s @ new \<and> clean new)
     | (Inl e, s') \<Rightarrow> db (fst s') = db (fst s) \<and>
                        (\<exists>new. snd s' = snd s @ new \<and> propagated mdl e new \<and>
                               last new = Atomic_rollback)" for s
  proof -
    let ?s0 = "(fst s, snd s @ [Atomic_begin])"
    obtain r s1 where run: "body ?s0 = (r, s1)" by (cases "body ?s0")
    show ?thesis
    proof (cases r)
      case (Inl e)
      with run assms [unfolded faithful_def, rule_format, of ?s0]
      obtain new where new: "snd s1 = (snd s @ [Atomic_begin]) @ new" "propagated mdl e new"
        by auto
      let ?new = "Atomic_begin # new @ [Atomic_rollback]"
      have "snd s1 @ [Atomic_rollback] = snd s @ ?new" using new(1) by simp
      moreover have "propagated mdl e ?new" by (rule propagated_in_transaction [OF new(2)])
      moreover have "last ?new = Atomic_rollback" by simp
      ultimately show ?thesis using run Inl by (simp add: atomic_run del: last.simps) blast?
    next
      case (Inr a)
      with run assms [unfolded faithful_def, rule_format, of ?s0]
      obtain new where new: "snd s1 = (snd s @ [Atomic_begin]) @ new" "clean new" by auto
      let ?new = "Atomic_begin # new @ [Atomic_commit]"
      have "snd s1 @ [Atomic_commit] = snd s @ ?new" using new(1) by simp
      moreover have "clean ?new" using new(2) by (simp add: clean_def)
      ultimately show ?thesis using run Inr by (simp add: atomic_run) blast?
    qed
  qed
  then show ?thesis unfolding all_or_nothing_def by blast
qed

lemma all_or_nothing_faithful:
  assumes "all_or_nothing mdl m"
  shows "faithful mdl m"
proof -
  have "case m s of
       (Inr a, s') \<Rightarrow> (\<exists>new. snd s' = snd s @ new \<and> clean new)
     | (Inl e, s') \<Rightarrow> (\<exists>new. snd s' = snd s @ new \<and> propagated mdl e new)" for s
  proof -
    obtain r s1 where "m s = (r, s1)" by (cases "m s")
    with assms [unfolded all_or_nothing_def, rule_format, of s] show ?thesis
      by (cases r) auto
  qed
  then show ?thesis unfolding faithful_def by blast
qed

lemma faithful_raw_update_all: "faithful mdl (raw_update_all env cs flds bs)"
  by (induction cs) (simp_all add: faithful_return faithful_bind faithful_invoke)

lemma faithful_raw_create_all: "faithful mdl (raw_create_all env cs bs ic result)"
  by (induction cs arbitrary: result) (simp_all add: faithful_return faithful_bind faithful_invoke)

lemma faithful_check_types:
  "who \<in> set [''bulk_update'', ''bulk_create'', ''bulk_delete''] \<Longrightarrow>
   faithful mdl (check_types who mdl objs)"
  unfolding check_types_def
  by (intro faithful_bind faithful_get_world) (simp add: faithful_raise faithful_return)

lemmas faithful_intros =
  faithful_bind faithful_return faithful_get_world faithful_modify_world faithful_invoke
  faithful_raw_update_all faithful_raw_create_all faithful_route

lemma bulk_update_all_or_nothing:
  "all_or_nothing (model env) (bulk_update env objs flds bs bypass)"
  unfolding bulk_update_def update_chunks_raw
  by (rule atomic_all_or_nothing)
     (auto intro!: faithful_intros faithful_check_types split: option.splits)

lemma bulk_create_all_or_nothing:
  "all_or_nothing (model env) (bulk_create env objs bs ic bypass)"
  unfolding bulk_create_def create_chunks_raw
  by (rule atomic_all_or_nothing)
     (auto intro!: faithful_intros faithful_check_types split: option.splits)

lemma bulk_delete_all_or_nothing:
  "all_or_nothing (model env) (bulk_delete env objs bs bypass)"
  unfolding bulk_delete_def
  by (rule atomic_all_or_nothing)
     (auto intro!: faithful_intros faithful_check_types split: option.splits)

lemma update_all_or_nothing: "all_or_nothing (model env) (update env kwargs)"
  unfolding update_def
  by (rule atomic_all_or_nothing)
     (auto intro!: faithful_intros all_or_nothing_faithful [OF bulk_update_all_or_nothing])

lemma delete_all_or_nothing: "all_or_nothing (model env) (delete env)"
  unfolding delete_def
  by (rule atomic_all_or_nothing)
     (auto intro!: faithful_intros all_or_nothing_faithful [OF bulk_delete_all_or_nothing])

lemma save_all_or_nothing: "all_or_nothing (model env) (save env obj)"
  unfolding save_def
  by (rule atomic_all_or_nothing)
     (auto intro!: faithful_intros all_or_nothing_faithful [OF bulk_update_all_or_nothing]
        all_or_nothing_faithful [OF bulk_create_all_or_nothing])

subsection \<open>What a run appends to the trace\<close>

lemma emitsI:
  "(\<And>s. \<exists>new. snd (snd (m s)) = snd s @ new \<and> list_all P new) \<Longrightarrow> emits P m"
  unfolding emits_def by blast

lemma emitsD: "emits P m \<Longrightarrow> \<exists>new. snd (snd (m s)) = snd s @ new \<and> list_all P new"
  unfolding emits_def by blast

lemma emits_return: "emits P (return_m a)"
  by (simp add: emits_def return_m_run)

lemma emits_raise: "emits P (raise_m e)"
  by (simp add: emits_def raise_m_run)

lemma emits_get_world: "emits P get_world"
  by (simp add: emits_def get_world_run)

lemma emits_modify_world: "emits P (modify_world f)"
  by (simp add: emits_def modify_world_run)

lemma emits_invoke:
  assumes "\<And>out. P (Called c out)"
  shows "emits P (invoke c (f :: ('a, 'db) action))"
proof (rule emitsI)
  fix s :: "'db state"
  obtain r w' where "f (fst s) = (r, w')" by (cases "f (fst s)")
  then show "\<exists>new. snd (snd (invoke c f s)) = snd s @ new \<and> list_all P new"
    using assms by (simp add: invoke_run)
qed

lemma emits_bind:
  assumes m: "emits P m" and f: "\<And>a. emits P (f a)"
  shows "emits P (bind_m m f)"
proof (rule emitsI)
  fix s
  obtain r s1 where ms: "m s = (r, s1)" by (cases "m s")
  from emitsD [OF m, of s] ms obtain new1 where n1: "snd s1 = snd s @ new1" "list_all P new1"
    by auto
  show "\<exists>new. snd (snd (bind_m m f s)) = snd s @ new \<and> list_all P new"
  proof (cases r)
    case (Inl e)
    with ms n1 show ?thesis by (simp add: bind_m_run)
  next
    case (Inr a)
    from emitsD [OF f, of a s1] obtain new2
      where "snd (snd (f a s1)) = snd s1 @ new2" "list_all P new2" by auto
    with n1 have "snd (snd (f a s1)) = snd s @ (new1 @ new2)" "list_all P (new1 @ new2)"
      by simp_all
    then show ?thesis using ms Inr by (simp add: bind_m_run) blast?
  qed
qed

lemma emits_atomic:
  assumes body: "emits P (body :: ('a, 'db) m)"
    and marks: "P Atomic_begin" "P Atomic_commit" "P Atomic_rollback"
  shows "emits P (atomic body)"
proof (rule emitsI)
  fix s :: "'db state"
  let ?s0 = "(fst s, snd s @ [Atomic_begin])"
  obtain r s1 where run: "body ?s0 = (r, s1)" by (cases "body ?s0")
  from emitsD [OF body, of ?s0] run
  obtain new where new: "snd s1 = (snd s @ [Atomic_begin]) @ new" "list_all P new" by auto
  show "\<exists>new. snd (snd (atomic body s)) = snd s @ new \<and> list_all P new"
  proof (cases r)
    case (Inl e)
    have "snd s1 @ [Atomic_rollback] = snd s @ (Atomic_begin # new @ [Atomic_rollback])"
      using new(1) by simp
    moreover have "list_all P (Atomic_begin # new @ [Atomic_rollback])"
      using new(2) marks by simp
    ultimately show ?thesis using run Inl by (simp add: atomic_run) blast?
  next
    case (Inr a)
    have "snd s1 @ [Atomic_commit] = snd s @ (Atomic_begin # new @ [Atomic_commit])"
      using new(1) by simp
    moreover have "list_all P (Atomic_begin # new @ [Atomic_commit])"
      using new(2) marks by simp
    ultimately show ?thesis using run Inr by (simp add: atomic_run) blast?
  qed
qed

lemma emits_check_types: "emits P (check_types who mdl objs)"
  unfolding check_types_def
  by (intro emits_bind emits_get_world) (simp add: emits_raise emits_return)

lemma emits_raw_update_all:
  assumes "\<And>c out. P (Called (Super_bulk_update c flds bs) out)"
  shows "emits P (raw_update_all env cs flds bs)"
  by (induction cs) (simp_all add: emits_return emits_bind emits_invoke assms)

lemma emits_raw_create_all:
  assumes "\<And>c out. P (Called (Super_bulk_create c bs ic) out)"
  shows "emits P (raw_create_all env cs bs ic result)"
  by (induction cs arbitrary: result) (simp_all add: emits_return emits_bind emits_invoke assms)

lemmas emits_intros =
  emits_bind emits_return emits_raise emits_get_world emits_modify_world emits_atomic
  emits_check_types emits_invoke emits_raw_update_all emits_raw_create_all

lemma not_routed_Called: "\<not> is_routed (Called c out)"
  by simp

lemma bulk_update_not_routed: "emits (\<lambda>x. \<not> is_routed x) (bulk_update env objs flds bs bypass)"
  unfolding bulk_update_def update_chunks_raw
  by (auto intro!: emits_intros split: option.splits)

lemma bulk_create_not_routed: "emits (\<lambda>x. \<not> is_routed x) (bulk_create env objs bs ic bypass)"
  unfolding bulk_create_def create_chunks_raw
  by (auto intro!: emits_intros split: option.splits)

lemma bulk_delete_not_routed: "emits (\<lambda>x. \<not> is_routed x) (bulk_delete env objs bs bypass)"
  unfolding bulk_delete_def
  by (auto intro!: emits_intros split: option.splits)

lemma falsy_values: "(\<not> truthy v) = (v = PyNone \<or> v = PyInt 0 \<or> v = PyStr [])"
  by (cases v) auto

lemma quiet_simps:
  "quiet (Called (New_TriggerContext mdl) out)"
  "quiet (Called (Filter_pk_in_delete pks) out)"
  "quiet (Called (Super_bulk_update objs flds bs) out)"
  "quiet (Called (Super_bulk_create objs bs ic) out)"
  "quiet Atomic_begin"
  "quiet Atomic_commit"
  "quiet Atomic_rollback"
  by (simp_all add: quiet_def)

lemma bulk_update_bypass_quiet: "emits quiet (bulk_update env objs flds bs True)"
  unfolding bulk_update_def update_chunks_raw
  by (simp add: bind_return_left) (auto intro!: emits_intros simp: quiet_simps)

lemma bulk_create_bypass_quiet: "emits quiet (bulk_create env objs bs ic True)"
  unfolding bulk_create_def create_chunks_raw
  by (simp add: bind_return_left) (auto intro!: emits_intros simp: quiet_simps)

lemma bulk_delete_bypass_quiet: "emits quiet (bulk_delete env objs bs True)"
  unfolding bulk_delete_def
  by (simp add: bind_return_left) (auto intro!: emits_intros simp: quiet_simps)

subsection \<open>The bulk methods\<close>

lemma raw_update_all_trace:
  "raw_update_all env cs flds bs s = (Inr u, s') \<Longrightarrow>
   snd s' = snd s @ map (\<lambda>c. Called (Super_bulk_update c flds bs) Returned) cs"
proof (induction cs arbitrary: s)
  case Nil
  then show ?case by (simp add: return_m_run)
next
  case (Cons c cs)
  obtain r1 w1 where c1: "super_bulk_update env c flds bs (fst s) = (r1, w1)"
    by (cases "super_bulk_update env c flds bs (fst s)")
  show ?case
  proof (cases r1)
    case (Inl e)
    with Cons.prems c1 show ?thesis by (simp add: bind_m_run invoke_run)
  next
    case (Inr a)
    with Cons.prems c1
    have "raw_update_all env cs flds bs
            (w1, snd s @ [Called (Super_bulk_update c flds bs) Returned]) = (Inr u, s')"
      by (simp add: bind_m_run invoke_run)
    from Cons.IH [OF this] show ?thesis by simp
  qed
qed

lemma raw_create_all_trace:
  "raw_create_all env cs bs ic result s = (Inr res, s') \<Longrightarrow>
   snd s' = snd s @ map (\<lambda>c. Called (Super_bulk_create c bs ic) Returned) cs"
proof (induction cs arbitrary: s result)
  case Nil
  then show ?case by (simp add: return_m_run)
next
  case (Cons c cs)
  obtain r1 w1 where c1: "super_bulk_create env c bs ic (fst s) = (r1, w1)"
    by (cases "super_bulk_create env c bs ic (fst s)")
  show ?case
  proof (cases r1)
    case (Inl e)
    with Cons.prems c1 show ?thesis by (simp add: bind_m_run invoke_run)
  next
    case (Inr created)
    with Cons.prems c1
    have "raw_create_all env cs bs ic (result @ created)
            (w1, snd s @ [Called (Super_bulk_create c bs ic) Returned]) = (Inr res, s')"
      by (simp add: bind_m_run invoke_run)
    from Cons.IH [OF this] show ?thesis by simp
  qed
qed

lemma bulk_update_trace:
  assumes "objs \<noteq> []"
    and "bulk_update env objs flds batch_size False (w, tr) = (Inr res, (w', tr'))"
  shows "\<exists>originals ctx.
           fst (filter_pk_in env (map (\<lambda>r. pk (heap w r)) objs) w) = Inr originals \<and>
           tr' = tr @ [Atomic_begin,
                       Called (Filter_pk_in (map (\<lambda>r. pk (heap w r)) objs)) Returned,
                       Called (New_TriggerContext (model env)) Returned,
                       Called (Engine_run (model env) BEFORE_UPDATE objs (Some originals) ctx) Returned]
                    @ map (\<lambda>c. Called (Super_bulk_update c flds batch_size) Returned)
                        (chunks_of CHUNK_SIZE objs)
                    @ [Called (Engine_run (model env) AFTER_UPDATE objs (Some originals) ctx) Returned,
                       Atomic_commit] \<and>
           res = objs"
  using assms
  unfolding bulk_update_def update_chunks_raw
  by (auto simp: run_simps check_types_run split: prod.splits sum.splits if_splits
        dest!: raw_update_all_trace)

lemma bulk_update_mismatch:
  assumes "any_not_instance w (model env) objs"
  shows "bulk_update env objs flds bs bypass (w, tr) =
           (Inl (TypeError ''bulk_update'' (class_name (model env)) (type_names w objs)),
            (w, tr @ [Atomic_begin, Atomic_rollback]))"
proof -
  from assms have "objs \<noteq> []" by (auto simp: any_not_instance_def)
  with assms show ?thesis
    by (simp add: bulk_update_def run_simps check_types_run)
qed

lemma bulk_create_mismatch:
  assumes "any_not_instance w (model env) objs"
  shows "bulk_create env objs bs ic bypass (w, tr) =
           (Inl (TypeError ''bulk_create'' (class_name (model env)) (type_names w objs)),
            (w, tr @ [Atomic_begin, Atomic_rollback]))"
  using assms by (simp add: bulk_create_def run_simps check_types_run)

lemma bulk_delete_mismatch:
  assumes "any_not_instance w (model env) objs"
  shows "bulk_delete env objs bs bypass (w, tr) =
           (Inl (TypeError ''bulk_delete'' (class_name (model env)) (type_names w objs)),
            (w, tr @ [Atomic_begin, Atomic_rollback]))"
proof -
  from assms have "objs \<noteq> []" by (auto simp: any_not_instance_def)
  with assms show ?thesis
    by (simp add: bulk_delete_def run_simps check_types_run)
qed

lemma raw_update_all_world:
  "result_and_world (raw_update_all env cs flds bs s) = write_updates env cs flds bs (fst s)"
proof (induction cs arbitrary: s)
  case Nil
  then show ?case by (simp add: result_and_world_def return_m_run)
next
  case (Cons c cs)
  obtain r1 w1 where c1: "super_bulk_update env c flds bs (fst s) = (r1, w1)"
    by (cases "super_bulk_update env c flds bs (fst s)")
  show ?case
  proof (cases r1)
    case (Inl e)
    with c1 show ?thesis by (simp add: result_and_world_def bind_m_run invoke_run)
  next
    case (Inr u)
    with c1 Cons.IH [of "(w1, snd s @ [Called (Super_bulk_update c flds bs) Returned])"]
    show ?thesis by (simp add: bind_m_run invoke_run)
  qed
qed

lemma raw_create_all_world:
  "result_and_world (raw_create_all env cs bs ic result s) =
     write_creates env cs bs ic result (fst s)"
proof (induction cs arbitrary: s result)
  case Nil
  then show ?case by (simp add: result_and_world_def return_m_run)
next
  case (Cons c cs)
  obtain r1 w1 where c1: "super_bulk_create env c bs ic (fst s) = (r1, w1)"
    by (cases "super_bulk_create env c bs ic (fst s)")
  show ?case
  proof (cases r1)
    case (Inl e)
    with c1 show ?thesis by (simp add: result_and_world_def bind_m_run invoke_run)
  next
    case (Inr created)
    with c1 Cons.IH [of "result @ created"
                        "(w1, snd s @ [Called (Super_bulk_create c bs ic) Returned])"]
    show ?thesis by (simp add: bind_m_run invoke_run)
  qed
qed

lemma bulk_update_bypass_world:
  assumes "\<not> any_not_instance w (model env) objs"
  shows "result_and_world (bulk_update env objs flds bs True (w, tr)) =
           in_transaction w (raw_update env objs flds bs w)"
proof (cases "objs = []")
  case True
  then show ?thesis
    by (simp add: bulk_update_def run_simps result_and_world_def raw_update_def chunks_of_Nil
          in_transaction_def)
next
  case False
  let ?run = "raw_update_all env (chunks_of CHUNK_SIZE objs) flds bs (w, tr @ [Atomic_begin])"
  obtain r1 s1 where run: "?run = (r1, s1)" by (cases ?run)
  with raw_update_all_world [of env "chunks_of CHUNK_SIZE objs" flds bs "(w, tr @ [Atomic_begin])"]
  have wr: "write_updates env (chunks_of CHUNK_SIZE objs) flds bs w = (r1, fst s1)"
    by (simp add: result_and_world_def)
  show ?thesis
    using False assms run wr
    unfolding bulk_update_def update_chunks_raw
    by (cases r1)
       (simp_all add: run_simps check_types_run result_and_world_def raw_update_def
          in_transaction_def)
qed

lemma bulk_create_bypass_world:
  assumes "\<not> any_not_instance w (model env) objs"
  shows "result_and_world (bulk_create env objs bs ic True (w, tr)) =
           in_transaction w (raw_create env objs bs ic w)"
proof -
  let ?run = "raw_create_all env (chunks_of CHUNK_SIZE objs) bs ic [] (w, tr @ [Atomic_begin])"
  obtain r1 s1 where run: "?run = (r1, s1)" by (cases ?run)
  with raw_create_all_world [of env "chunks_of CHUNK_SIZE objs" bs ic "[]" "(w, tr @ [Atomic_begin])"]
  have wr: "write_creates env (chunks_of CHUNK_SIZE objs) bs ic [] w = (r1, fst s1)"
    by (simp add: result_and_world_def)
  show ?thesis
    using assms run wr
    unfolding bulk_create_def create_chunks_raw
    by (cases r1)
       (simp_all add: run_simps check_types_run result_and_world_def raw_create_def
          in_transaction_def)
qed

lemma bulk_delete_bypass_world:
  assumes "\<not> any_not_instance w (model env) objs"
  shows "result_and_world (bulk_delete env objs bs True (w, tr)) =
           (if objs = [] then (Inr [], w)
            else in_transaction w
                   (case new_context env (model env) w of
                      (Inl e, w0) \<Rightarrow> (Inl e, w0)
                    | (Inr ctx, w0) \<Rightarrow> raw_delete env objs w0))"
  using assms
  unfolding bulk_delete_def filter_pks
  by (auto simp: run_simps check_types_run result_and_world_def raw_delete_def
        in_transaction_def split: prod.splits sum.splits)

lemma bulk_create_completes:
  "on_return (bulk_create env objs bs ic bypass (w, tr))
     (\<lambda>res s'. \<exists>new. snd s' = tr @ new \<and> create_completed env objs bs ic bypass res new)"
  unfolding bulk_create_def create_chunks_raw on_return_def create_completed_def hooked_def
  by (auto simp: run_simps check_types_run split: prod.splits sum.splits if_splits
        dest!: raw_create_all_trace)

lemma bulk_update_completes:
  "on_return (bulk_update env objs flds bs bypass (w, tr))
     (\<lambda>res s'. \<exists>new. snd s' = tr @ new \<and> update_completed env objs flds bs bypass res new)"
  unfolding bulk_update_def update_chunks_raw on_return_def update_completed_def hooked_def
  by (auto simp: run_simps check_types_run split: prod.splits sum.splits if_splits
        dest!: raw_update_all_trace)

lemma bulk_delete_completes:
  "on_return (bulk_delete env objs bs bypass (w, tr))
     (\<lambda>res s'. \<exists>new. snd s' = tr @ new \<and> delete_completed env objs bypass res new)"
  unfolding bulk_delete_def on_return_def delete_completed_def hooked_def
  by (auto simp: run_simps check_types_run split: prod.splits sum.splits if_splits)

lemma update_completes:
  "on_return (update env kwargs (w, tr))
     (\<lambda>n s'. \<exists>objs w1.
        all_objects env w = (Inr objs, w1) \<and> n = length objs \<and>
        (if objs = []
         then s' = (w1, tr @ [Atomic_begin, Called All_objects Returned, Atomic_commit])
         else \<exists>res tr1.
           bulk_update env objs (map fst kwargs) None False
             (apply_kwargs kwargs objs w1,
              tr @ [Atomic_begin, Called All_objects Returned,
                    Routed (Self_bulk_update objs (map fst kwargs) None False)])
           = (Inr res, (fst s', tr1)) \<and>
           snd s' = tr1 @ [Atomic_commit]))"
  unfolding update_def on_return_def
  by (auto simp: run_simps split: prod.splits sum.splits if_splits)

lemma delete_completes:
  "on_return (delete env (w, tr))
     (\<lambda>n s'. \<exists>objs w1.
        all_objects env w = (Inr objs, w1) \<and> n = length objs \<and>
        (if objs = []
         then s' = (w1, tr @ [Atomic_begin, Called All_objects Returned, Atomic_commit])
         else \<exists>res tr1.
           bulk_delete env objs None False
             (w1, tr @ [Atomic_begin, Called All_objects Returned,
                        Routed (Self_bulk_delete objs None False)])
           = (Inr res, (fst s', tr1)) \<and>
           snd s' = tr1 @ [Atomic_commit]))"
  unfolding delete_def on_return_def
  by (auto simp: run_simps split: prod.splits sum.splits if_splits)

lemma save_completes:
  "on_return (save env obj (w, tr))
     (\<lambda>r s'. r = obj \<and>
        (\<exists>res tr1.
           (if truthy (pk (heap w obj))
            then bulk_update env [obj]
                   (filter (\<lambda>name. name \<noteq> ''id'') (meta_fields (heap w obj))) None False
                   (w, tr @ [Atomic_begin,
                             Routed (Self_bulk_update [obj]
                               (filter (\<lambda>name. name \<noteq> ''id'') (meta_fields (heap w obj)))
                               None False)])
            else bulk_create env [obj] None False False
                   (w, tr @ [Atomic_begin, Routed (Self_bulk_create [obj] None False False)]))
           = (Inr res, (fst s', tr1)) \<and>
           snd s' = tr1 @ [Atomic_commit]))"
  unfolding save_def on_return_def
  by (auto simp: run_simps split: prod.splits sum.splits if_splits)
subsection \<open>Runs in the concrete environment\<close>

lemma length_sample_batch: "length sample_batch = 201"
  by (simp add: sample_batch_def del: upt_rec_numeral)

lemma chunks_of_sample:
  "chunks_of CHUNK_SIZE sample_batch = [take 200 sample_batch, drop 200 sample_batch]"
  unfolding CHUNK_SIZE_def by (rule chunks_of_two) (simp_all add: length_sample_batch)

lemma db_sample_world: "db sample_world = []"
  by (simp add: sample_world_def)

lemma heap_sample_world: "heap sample_world = sample_heap"
  by (simp add: sample_world_def)

lemma model_sample_env: "model (sample_env mdl failing) = mdl"
  by (simp add: sample_env_def)

lemma sample_accounts:
  "r \<noteq> 500 \<Longrightarrow> r \<noteq> 600 \<Longrightarrow> isinstance (sample_heap r) Account"
  by (simp add: sample_heap_def isinstance_def)

lemma sample_invoice: "\<not> isinstance (sample_heap 500) Account"
  by (simp add: sample_heap_def isinstance_def Account_def Invoice_def Model_def)

lemma sample_other_account:
  "\<not> isinstance (sample_heap 600) Account"
  "class_name (obj_class (sample_heap 600)) = class_name Account"
  by (simp_all add: sample_heap_def isinstance_def Account_def Other_Account_def Model_def)

lemma sample_pk:
  "r \<noteq> 500 \<Longrightarrow> r \<noteq> 600 \<Longrightarrow>
   pk (sample_heap r) = (if r < 1000 then PyInt (int r) else PyNone)"
  by (simp add: sample_heap_def pk_def)

lemmas sample_simps =
  model_sample_env heap_sample_world db_sample_world sample_accounts sample_invoice
  sample_other_account sample_pk

lemma sample_batch_valid: "\<not> any_not_instance sample_world Account sample_batch"
  by (simp add: any_not_instance_iff heap_sample_world sample_accounts sample_batch_def
        del: upt_rec_numeral)

lemma sample_run:
  "bulk_update (sample_env Account []) sample_batch [''name''] None False (sample_world, [])
   = (Inr sample_batch,
      (sample_world\<lparr>db := [Super_bulk_update (take 200 sample_batch) [''name''] None,
                           Super_bulk_update (drop 200 sample_batch) [''name''] None]\<rparr>,
       [Atomic_begin,
        Called (Filter_pk_in (map (\<lambda>r. pk (sample_heap r)) sample_batch)) Returned,
        Called (New_TriggerContext Account) Returned,
        Called (Engine_run Account BEFORE_UPDATE sample_batch (Some []) 0) Returned,
        Called (Super_bulk_update (take 200 sample_batch) [''name''] None) Returned,
        Called (Super_bulk_update (drop 200 sample_batch) [''name''] None) Returned,
        Called (Engine_run Account AFTER_UPDATE sample_batch (Some []) 0) Returned,
        Atomic_commit]))"
proof -
  have ne: "sample_batch \<noteq> []" using length_sample_batch by auto
  show ?thesis
    unfolding bulk_update_def update_chunks_raw
    by (simp add: ne sample_batch_valid run_simps check_types_run chunks_of_sample
          sample_env_def db_sample_world heap_sample_world)
qed

lemma sample_create_fails:
  "bulk_create (sample_env Account [AFTER_CREATE]) sample_batch None False False
     (sample_world, [])
   = (Inl (HookError ''hook failed''),
      (sample_world,
       [Atomic_begin,
        Called (New_TriggerContext Account) Returned,
        Called (Engine_run Account BEFORE_CREATE sample_batch None 0) Returned,
        Called (Super_bulk_create (take 200 sample_batch) None False) Returned,
        Called (Super_bulk_create (drop 200 sample_batch) None False) Returned,
        Called (Engine_run Account AFTER_CREATE sample_batch None 0)
          (Raised (HookError ''hook failed'')),
        Atomic_rollback]))"
proof -
  have restored: "sample_world\<lparr>db := []\<rparr> = sample_world" by (simp add: sample_world_def)
  show ?thesis
    unfolding bulk_create_def create_chunks_raw
    by (simp add: sample_batch_valid chunks_of_sample restored run_simps check_types_run
          sample_env_def db_sample_world)
qed

lemma sample_pk_zero: "pk (heap sample_world 0) = PyInt 0"
  by (simp add: sample_simps)

lemma sample_invoice_pk: "meta_pk (heap sample_world 500) = ''code''"
  by (simp add: heap_sample_world sample_heap_def)

lemma sample_create_one:
  assumes "r \<noteq> 500" and "r \<noteq> 600" and "\<not> truthy (pk (sample_heap r))"
  shows "save (sample_env Account []) r (sample_world, [])
   = (Inr r,
      (sample_world\<lparr>db := [Super_bulk_create [r] None False]\<rparr>,
       [Atomic_begin,
        Routed (Self_bulk_create [r] None False False),
        Atomic_begin,
        Called (New_TriggerContext Account) Returned,
        Called (Engine_run Account BEFORE_CREATE [r] None 0) Returned,
        Called (Super_bulk_create [r] None False) Returned,
        Called (Engine_run Account AFTER_CREATE [r] None 0) Returned,
        Atomic_commit,
        Atomic_commit]))"
proof -
  have ch: "chunks_of CHUNK_SIZE [r] = [[r]]"
    by (rule chunks_of_one) (simp_all add: CHUNK_SIZE_def)
  have valid: "\<not> any_not_instance sample_world Account [r]"
    using assms(1,2) by (simp add: any_not_instance_def sample_simps)
  show ?thesis
    unfolding save_def bulk_create_def create_chunks_raw
    using assms(3)
    by (simp add: valid ch run_simps check_types_run sample_env_def db_sample_world
          heap_sample_world)
qed

lemma sample_save_zero:
  "save (sample_env Account []) 0 (sample_world, [])
   = (Inr 0,
      (sample_world\<lparr>db := [Super_bulk_create [0] None False]\<rparr>,
       [Atomic_begin,
        Routed (Self_bulk_create [0] None False False),
        Atomic_begin,
        Called (New_TriggerContext Account) Returned,
        Called (Engine_run Account BEFORE_CREATE [0] None 0) Returned,
        Called (Super_bulk_create [0] None False) Returned,
        Called (Engine_run Account AFTER_CREATE [0] None 0) Returned,
        Atomic_commit,
        Atomic_commit]))"
  by (rule sample_create_one) (simp_all add: sample_pk)

lemma sample_save_unsaved:
  "save (sample_env Account []) 1000 (sample_world, [])
   = (Inr 1000,
      (sample_world\<lparr>db := [Super_bulk_create [1000] None False]\<rparr>,
       [Atomic_begin,
        Routed (Self_bulk_create [1000] None False False),
        Atomic_begin,
        Called (New_TriggerContext Account) Returned,
        Called (Engine_run Account BEFORE_CREATE [1000] None 0) Returned,
        Called (Super_bulk_create [1000] None False) Returned,
        Called (Engine_run Account AFTER_CREATE [1000] None 0) Returned,
        Atomic_commit,
        Atomic_commit]))"
  by (rule sample_create_one) (simp_all add: sample_pk)

lemma sample_save_invoice:
  "save (sample_env Invoice []) 500 (sample_world, [])
   = (Inr 500,
      (sample_world\<lparr>db := [Super_bulk_update [500] [''code'', ''total''] None]\<rparr>,
       [Atomic_begin,
        Routed (Self_bulk_update [500] [''code'', ''total''] None False),
        Atomic_begin,
        Called (Filter_pk_in [PyStr ''A1'']) Returned,
        Called (New_TriggerContext Invoice) Returned,
        Called (Engine_run Invoice BEFORE_UPDATE [500] (Some []) 0) Returned,
        Called (Super_bulk_update [500] [''code'', ''total''] None) Returned,
        Called (Engine_run Invoice AFTER_UPDATE [500] (Some []) 0) Returned,
        Atomic_commit,
        Atomic_commit]))"
proof -
  have ch: "chunks_of CHUNK_SIZE [500 :: nat] = [[500]]"
    by (rule chunks_of_one) (simp_all add: CHUNK_SIZE_def)
  have valid: "\<not> any_not_instance sample_world Invoice [500]"
    by (simp add: any_not_instance_def heap_sample_world sample_heap_def isinstance_def)
  have pk500: "pk (sample_heap 500) = PyStr ''A1''"
    by (simp add: sample_heap_def pk_def)
  have mf: "meta_fields (sample_heap 500) = [''code'', ''total'']"
    by (simp add: sample_heap_def)
  show ?thesis
    unfolding save_def bulk_update_def update_chunks_raw
    by (simp add: valid ch pk500 mf run_simps check_types_run sample_env_def db_sample_world
          heap_sample_world)
qed

lemma sample_update_bypassed:
  "bulk_update (sample_env Account []) [2, 3] [''name''] None True (sample_world, [])
   = (Inr [2, 3],
      (sample_world\<lparr>db := [Super_bulk_update [2, 3] [''name''] None]\<rparr>,
       [Atomic_begin,
        Called (Super_bulk_update [2, 3] [''name''] None) Returned,
        Atomic_commit]))"
proof -
  have ch: "chunks_of CHUNK_SIZE [2, 3 :: nat] = [[2, 3]]"
    by (rule chunks_of_one) (simp_all add: CHUNK_SIZE_def)
  have valid: "\<not> any_not_instance sample_world Account [2, 3]"
    by (simp add: any_not_instance_def sample_simps)
  show ?thesis
    unfolding bulk_update_def update_chunks_raw
    by (simp add: valid ch run_simps check_types_run sample_env_def db_sample_world)
qed

lemma sample_delete:
  "bulk_delete (sample_env Account []) [2, 1000, 3] None False (sample_world, [])
   = (Inr [2, 1000, 3],
      (sample_world\<lparr>db := [Filter_pk_in_delete [PyInt 2, PyInt 3]]\<rparr>,
       [Atomic_begin,
        Called (New_TriggerContext Account) Returned,
        Called (Engine_run Account BEFORE_DELETE [2, 1000, 3] None 0) Returned,
        Called (Filter_pk_in_delete [PyInt 2, PyInt 3]) Returned,
        Called (Engine_run Account AFTER_DELETE [2, 1000, 3] None 0) Returned,
        Atomic_commit]))"
proof -
  have valid: "\<not> any_not_instance sample_world Account [2, 1000, 3]"
    by (simp add: any_not_instance_def sample_simps)
  show ?thesis
    unfolding bulk_delete_def
    by (simp add: valid run_simps check_types_run sample_env_def db_sample_world
          heap_sample_world sample_pk)
qed

lemma sample_create_empty:
  "bulk_create (sample_env Account []) [] None False False (sample_world, [])
   = (Inr [],
      (sample_world,
       [Atomic_begin,
        Called (New_TriggerContext Account) Returned,
        Called (Engine_run Account BEFORE_CREATE [] None 0) Returned,
        Called (Engine_run Account AFTER_CREATE [] None 0) Returned,
        Atomic_commit]))"
  unfolding bulk_create_def create_chunks_raw
  by (simp add: any_not_instance_def chunks_of_Nil run_simps check_types_run sample_env_def)

lemma sample_mismatch:
  "bulk_update (sample_env Account []) [2, 600] [''name''] None False (sample_world, [])
   = (Inl (TypeError ''bulk_update'' ''Account'' {''Account''}),
      (sample_world, [Atomic_begin, Atomic_rollback]))"
proof -
  have any: "any_not_instance sample_world Account [2, 600]"
    by (simp add: any_not_instance_def sample_simps)
  have names: "type_names sample_world [2, 600] = {''Account''}"
    by (simp add: type_names_def heap_sample_world sample_heap_def Account_def
          Other_Account_def)
  have nm: "class_name Account = ''Account''" by (simp add: Account_def)
  show ?thesis
    using bulk_update_mismatch [of sample_world "sample_env Account []" "[2, 600]"
            "[''name'']" None False "[]"] any
    by (simp add: model_sample_env names nm)
qed

section \<open>The claims\<close>

subsection \<open>C1: hooks see the whole batch, the base manager sees chunks\<close>

text \<open>
  C1. For a batch of more than 200 objects and \<^verbatim>\<open>bypass_hooks=False\<close>, a
  \<^verbatim>\<open>bulk_update\<close> that returns has made exactly these calls, in this order, inside its
  transaction: the fetch of the originals by the primary keys of the whole batch, the
  construction of the context, one BEFORE_UPDATE run with the whole batch, the fetched
  originals and that context, one base \<^verbatim>\<open>bulk_update\<close> per chunk, and one AFTER_UPDATE
  run with the same batch, originals and context. The chunks are non-empty, hold at
  most 200 objects each, concatenate to the batch, and there are at least two of them.
  It returns the batch.
\<close>

theorem bulk_update_hooks_once:
  assumes "200 < length objs"
    and "bulk_update env objs flds batch_size False (w, tr) = (Inr res, (w', tr'))"
  shows "(\<exists>originals ctx.
           fst (filter_pk_in env (map (\<lambda>r. pk (heap w r)) objs) w) = Inr originals \<and>
           tr' = tr @ [Atomic_begin,
                       Called (Filter_pk_in (map (\<lambda>r. pk (heap w r)) objs)) Returned,
                       Called (New_TriggerContext (model env)) Returned,
                       Called (Engine_run (model env) BEFORE_UPDATE objs (Some originals) ctx) Returned]
                    @ map (\<lambda>c. Called (Super_bulk_update c flds batch_size) Returned)
                        (chunks_of CHUNK_SIZE objs)
                    @ [Called (Engine_run (model env) AFTER_UPDATE objs (Some originals) ctx) Returned,
                       Atomic_commit] \<and>
           res = objs) \<and>
         concat (chunks_of CHUNK_SIZE objs) = objs \<and>
         list_all (\<lambda>c. c \<noteq> [] \<and> length c \<le> 200) (chunks_of CHUNK_SIZE objs) \<and>
         1 < length (chunks_of CHUNK_SIZE objs)"
proof -
  from assms(1) have ne: "objs \<noteq> []" by auto
  have "list_all (\<lambda>c. c \<noteq> [] \<and> length c \<le> CHUNK_SIZE) (chunks_of CHUNK_SIZE objs)"
    by (rule chunks_of_bounds [OF chunk_size_pos])
  then have bounds: "list_all (\<lambda>c. c \<noteq> [] \<and> length c \<le> 200) (chunks_of CHUNK_SIZE objs)"
    by (simp add: CHUNK_SIZE_def)
  have many: "1 < length (chunks_of CHUNK_SIZE objs)"
    using assms(1) by (intro chunks_of_many chunk_size_pos) (simp add: CHUNK_SIZE_def)
  show ?thesis
    using bulk_update_trace [OF ne assms(2)] concat_chunks_of [OF chunk_size_pos, of objs]
      bounds many
    by blast
qed

theorem bulk_update_hooks_once_witness:
  "200 < length sample_batch \<and>
   bulk_update (sample_env Account []) sample_batch [''name''] None False (sample_world, [])
   = (Inr sample_batch,
      (sample_world\<lparr>db := [Super_bulk_update (take 200 sample_batch) [''name''] None,
                           Super_bulk_update (drop 200 sample_batch) [''name''] None]\<rparr>,
       [Atomic_begin,
        Called (Filter_pk_in (map (\<lambda>r. pk (sample_heap r)) sample_batch)) Returned,
        Called (New_TriggerContext Account) Returned,
        Called (Engine_run Account BEFORE_UPDATE sample_batch (Some []) 0) Returned,
        Called (Super_bulk_update (take 200 sample_batch) [''name''] None) Returned,
        Called (Super_bulk_update (drop 200 sample_batch) [''name''] None) Returned,
        Called (Engine_run Account AFTER_UPDATE sample_batch (Some []) 0) Returned,
        Atomic_commit])) \<and>
   concat (chunks_of CHUNK_SIZE sample_batch) = sample_batch \<and>
   list_all (\<lambda>c. c \<noteq> [] \<and> length c \<le> 200) (chunks_of CHUNK_SIZE sample_batch) \<and>
   1 < length (chunks_of CHUNK_SIZE sample_batch)"
proof -
  have h1: "200 < length sample_batch" by (simp add: length_sample_batch)
  note h2 = sample_run
  note c = bulk_update_hooks_once [OF h1 h2, THEN conjunct2]
  show ?thesis by (rule conjI [OF h1 conjI [OF h2 c]])
qed

subsection \<open>C2: all or nothing\<close>

text \<open>
  C2. Each of the six manager methods, on every input and from every state, either
  returns or raises.

  When it raises, the run ends by the rollback of its transaction, the persisted
  state is the one it started from, and the error is the one raised by the last call
  it made (every earlier call having returned), or else the manager's own
  \<^verbatim>\<open>TypeError\<close> with no call having raised.

  When it returns, no call it made has raised and it has completed fully. For a bulk
  method that is: inside the transaction, the BEFORE hooks on the whole batch (unless
  bypassed), the base primitive on every chunk of the batch, the AFTER hooks (unless
  bypassed), and the commit; \<^verbatim>\<open>bulk_update\<close> and \<^verbatim>\<open>bulk_delete\<close> of the empty batch
  only enter and commit. For \<^verbatim>\<open>update\<close> and \<^verbatim>\<open>delete\<close> it is: the objects were read;
  if there are none the count is 0; otherwise (for \<^verbatim>\<open>update\<close>, after the values were set
  on every object) the bulk method was called on all of them and has returned, and the
  count is their number. For \<^verbatim>\<open>save\<close> it is: the bulk method it chose was called on
  \<open>[obj]\<close> and has returned, and \<open>obj\<close> is returned.

  The rollback is that of \<open>atomic\<close>, which every method is wrapped in. In the
  instance below both chunks of a batch of 201 are written before the AFTER_CREATE hook
  raises, and no row is left.
\<close>

theorem manager_methods_all_or_nothing:
  "all_or_nothing (model env) (bulk_create env objs batch_size ignore_conflicts bypass_hooks) \<and>
   all_or_nothing (model env) (bulk_update env objs flds batch_size bypass_hooks) \<and>
   all_or_nothing (model env) (bulk_delete env objs batch_size bypass_hooks) \<and>
   all_or_nothing (model env) (update env kwargs) \<and>
   all_or_nothing (model env) (delete env) \<and>
   all_or_nothing (model env) (save env obj) \<and>
   on_return (bulk_create env objs batch_size ignore_conflicts bypass_hooks (w, tr))
     (\<lambda>res s'. \<exists>new. snd s' = tr @ new \<and>
        create_completed env objs batch_size ignore_conflicts bypass_hooks res new) \<and>
   on_return (bulk_update env objs flds batch_size bypass_hooks (w, tr))
     (\<lambda>res s'. \<exists>new. snd s' = tr @ new \<and>
        update_completed env objs flds batch_size bypass_hooks res new) \<and>
   on_return (bulk_delete env objs batch_size bypass_hooks (w, tr))
     (\<lambda>res s'. \<exists>new. snd s' = tr @ new \<and> delete_completed env objs bypass_hooks res new) \<and>
   on_return (update env kwargs (w, tr))
     (\<lambda>n s'. \<exists>objs w1.
        all_objects env w = (Inr objs, w1) \<and> n = length objs \<and>
        (if objs = []
         then s' = (w1, tr @ [Atomic_begin, Called All_objects Returned, Atomic_commit])
         else \<exists>res tr1.
           bulk_update env objs (map fst kwargs) None False
             (apply_kwargs kwargs objs w1,
              tr @ [Atomic_begin, Called All_objects Returned,
                    Routed (Self_bulk_update objs (map fst kwargs) None False)])
           = (Inr res, (fst s', tr1)) \<and>
           snd s' = tr1 @ [Atomic_commit])) \<and>
   on_return (delete env (w, tr))
     (\<lambda>n s'. \<exists>objs w1.
        all_objects env w = (Inr objs, w1) \<and> n = length objs \<and>
        (if objs = []
         then s' = (w1, tr @ [Atomic_begin, Called All_objects Returned, Atomic_commit])
         else \<exists>res tr1.
           bulk_delete env objs None False
             (w1, tr @ [Atomic_begin, Called All_objects Returned,
                        Routed (Self_bulk_delete objs None False)])
           = (Inr res, (fst s', tr1)) \<and>
           snd s' = tr1 @ [Atomic_commit])) \<and>
   on_return (save env obj (w, tr))
     (\<lambda>r s'. r = obj \<and>
        (\<exists>res tr1.
           (if truthy (pk (heap w obj))
            then bulk_update env [obj]
                   (filter (\<lambda>name. name \<noteq> ''id'') (meta_fields (heap w obj))) None False
                   (w, tr @ [Atomic_begin,
                             Routed (Self_bulk_update [obj]
                               (filter (\<lambda>name. name \<noteq> ''id'') (meta_fields (heap w obj)))
                               None False)])
            else bulk_create env [obj] None False False
                   (w, tr @ [Atomic_begin, Routed (Self_bulk_create [obj] None False False)]))
           = (Inr res, (fst s', tr1)) \<and>
           snd s' = tr1 @ [Atomic_commit]))"
  by (intro conjI bulk_create_all_or_nothing bulk_update_all_or_nothing
        bulk_delete_all_or_nothing update_all_or_nothing delete_all_or_nothing
        save_all_or_nothing bulk_create_completes bulk_update_completes
        bulk_delete_completes update_completes delete_completes save_completes)

theorem manager_methods_all_or_nothing_witness:
  "all_or_nothing (model (sample_env Account [AFTER_CREATE]))
     (bulk_create (sample_env Account [AFTER_CREATE]) sample_batch None False False) \<and>
   bulk_create (sample_env Account [AFTER_CREATE]) sample_batch None False False
     (sample_world, [])
   = (Inl (HookError ''hook failed''),
      (sample_world,
       [Atomic_begin,
        Called (New_TriggerContext Account) Returned,
        Called (Engine_run Account BEFORE_CREATE sample_batch None 0) Returned,
        Called (Super_bulk_create (take 200 sample_batch) None False) Returned,
        Called (Super_bulk_create (drop 200 sample_batch) None False) Returned,
        Called (Engine_run Account AFTER_CREATE sample_batch None 0)
          (Raised (HookError ''hook failed'')),
        Atomic_rollback])) \<and>
   on_return (bulk_update (sample_env Account []) sample_batch [''name''] None False
                (sample_world, []))
     (\<lambda>res s'. \<exists>new. snd s' = [] @ new \<and>
        update_completed (sample_env Account []) sample_batch [''name''] None False res new) \<and>
   fst (bulk_update (sample_env Account []) sample_batch [''name''] None False
          (sample_world, [])) = Inr sample_batch"
proof -
  note a = manager_methods_all_or_nothing [THEN conjunct1]
  note b = manager_methods_all_or_nothing
    [THEN conjunct2, THEN conjunct2, THEN conjunct2, THEN conjunct2, THEN conjunct2,
     THEN conjunct2, THEN conjunct2, THEN conjunct1]
  have c: "fst (bulk_update (sample_env Account []) sample_batch [''name''] None False
             (sample_world, [])) = Inr sample_batch"
    by (simp add: sample_run)
  show ?thesis
    by (rule conjI [OF a conjI [OF sample_create_fails conjI [OF b c]]])
qed

subsection \<open>C3: a batch with a foreign object is refused inside the transaction\<close>

text \<open>
  C3, as stated, has the \<^verbatim>\<open>TypeError\<close> raised before any transactional work begins.
  The type check is the first statement of a method that \<^verbatim>\<open>@transaction.atomic\<close>
  wraps, so the transaction is entered before the check runs. At the input below (a
  batch that holds an instance of another class, which is also named Account) the trace
  of \<^verbatim>\<open>bulk_update\<close> is not empty: it holds the entry into the transaction and its
  rollback.
\<close>

theorem type_mismatch_before_transaction_counterexample:
  "(600 :: ref) \<in> set [2, 600] \<and>
   \<not> isinstance (heap sample_world 600) (model (sample_env Account [])) \<and>
   bulk_update (sample_env Account []) [2, 600] [''name''] None False (sample_world, [])
   = (Inl (TypeError ''bulk_update'' ''Account'' {''Account''}),
      (sample_world, [Atomic_begin, Atomic_rollback])) \<and>
   bulk_update (sample_env Account []) [2, 600] [''name''] None False (sample_world, [])
   \<noteq> (Inl (TypeError ''bulk_update'' ''Account'' {''Account''}), (sample_world, []))"
  by (simp add: sample_mismatch sample_simps)

text \<open>
  C3, amended. If a batch holds an object that is not an instance of the manager's
  model, then \<^verbatim>\<open>bulk_create\<close>, \<^verbatim>\<open>bulk_update\<close> and \<^verbatim>\<open>bulk_delete\<close> raise the \<^verbatim>\<open>TypeError\<close>
  of the type check, whatever \<^verbatim>\<open>bypass_hooks\<close> is, inside the method's transaction,
  which is entered first and rolled back with nothing done in it: no hook run, no
  context built, no storage call. The world is unchanged, so nothing is written.
\<close>

theorem type_mismatch_fails_fast:
  assumes "r \<in> set objs" and "\<not> isinstance (heap w r) (model env)"
  shows "bulk_create env objs batch_size ignore_conflicts bypass_hooks (w, tr) =
           (Inl (TypeError ''bulk_create'' (class_name (model env)) (type_names w objs)),
            (w, tr @ [Atomic_begin, Atomic_rollback])) \<and>
         bulk_update env objs flds batch_size bypass_hooks (w, tr) =
           (Inl (TypeError ''bulk_update'' (class_name (model env)) (type_names w objs)),
            (w, tr @ [Atomic_begin, Atomic_rollback])) \<and>
         bulk_delete env objs batch_size bypass_hooks (w, tr) =
           (Inl (TypeError ''bulk_delete'' (class_name (model env)) (type_names w objs)),
            (w, tr @ [Atomic_begin, Atomic_rollback]))"
  using type_mismatch_any [OF assms]
  by (simp add: bulk_create_mismatch bulk_update_mismatch bulk_delete_mismatch)

theorem type_mismatch_fails_fast_witness:
  "(600 :: ref) \<in> set [2, 600] \<and>
   \<not> isinstance (heap sample_world 600) (model (sample_env Account [])) \<and>
   class_name (obj_class (sample_heap 600)) = class_name Account \<and>
   bulk_create (sample_env Account []) [2, 600] None False False (sample_world, []) =
     (Inl (TypeError ''bulk_create'' (class_name (model (sample_env Account [])))
             (type_names sample_world [2, 600])),
      (sample_world, [] @ [Atomic_begin, Atomic_rollback])) \<and>
   bulk_update (sample_env Account []) [2, 600] [''name''] None False (sample_world, []) =
     (Inl (TypeError ''bulk_update'' (class_name (model (sample_env Account [])))
             (type_names sample_world [2, 600])),
      (sample_world, [] @ [Atomic_begin, Atomic_rollback])) \<and>
   bulk_delete (sample_env Account []) [2, 600] None False (sample_world, []) =
     (Inl (TypeError ''bulk_delete'' (class_name (model (sample_env Account [])))
             (type_names sample_world [2, 600])),
      (sample_world, [] @ [Atomic_begin, Atomic_rollback]))"
proof -
  have h1: "600 \<in> set [2, 600 :: nat]" by simp
  have h2: "\<not> isinstance (heap sample_world 600) (model (sample_env Account []))"
    by (simp add: sample_simps)
  note same_name = sample_other_account(2)
  show ?thesis
    by (rule conjI [OF h1 conjI [OF h2 conjI [OF same_name
          type_mismatch_fails_fast [OF h1 h2]]]])
qed

subsection \<open>C4: where \<^verbatim>\<open>save\<close> leaves the claim\<close>

text \<open>
  C4. The claim sends every object with an assigned primary key to \<^verbatim>\<open>bulk_update\<close>,
  with every field but the primary-key field. The code tests \<^verbatim>\<open>if obj.pk:\<close> and leaves
  out the field named \<^verbatim>\<open>id\<close>. Evaluated here: an Account whose primary key is
  \<open>0\<close> (assigned, not \<^verbatim>\<open>None\<close>) is sent to \<^verbatim>\<open>bulk_create\<close>; an Invoice whose
  primary-key field is named \<^verbatim>\<open>code\<close> is sent to \<^verbatim>\<open>bulk_update\<close> with \<^verbatim>\<open>code\<close> among
  the fields.
\<close>

theorem save_zero_pk_and_custom_pk_field:
  "pk (heap sample_world 0) = PyInt 0 \<and>
   save (sample_env Account []) 0 (sample_world, [])
   = (Inr 0,
      (sample_world\<lparr>db := [Super_bulk_create [0] None False]\<rparr>,
       [Atomic_begin,
        Routed (Self_bulk_create [0] None False False),
        Atomic_begin,
        Called (New_TriggerContext Account) Returned,
        Called (Engine_run Account BEFORE_CREATE [0] None 0) Returned,
        Called (Super_bulk_create [0] None False) Returned,
        Called (Engine_run Account AFTER_CREATE [0] None 0) Returned,
        Atomic_commit,
        Atomic_commit])) \<and>
   meta_pk (heap sample_world 500) = ''code'' \<and>
   save (sample_env Invoice []) 500 (sample_world, [])
   = (Inr 500,
      (sample_world\<lparr>db := [Super_bulk_update [500] [''code'', ''total''] None]\<rparr>,
       [Atomic_begin,
        Routed (Self_bulk_update [500] [''code'', ''total''] None False),
        Atomic_begin,
        Called (Filter_pk_in [PyStr ''A1'']) Returned,
        Called (New_TriggerContext Invoice) Returned,
        Called (Engine_run Invoice BEFORE_UPDATE [500] (Some []) 0) Returned,
        Called (Super_bulk_update [500] [''code'', ''total''] None) Returned,
        Called (Engine_run Invoice AFTER_UPDATE [500] (Some []) 0) Returned,
        Atomic_commit,
        Atomic_commit]))"
  by (intro conjI sample_pk_zero sample_save_zero sample_invoice_pk sample_save_invoice)

subsection \<open>C5: the empty batch\<close>

text \<open>
  C5. On the empty batch \<^verbatim>\<open>bulk_update\<close> and \<^verbatim>\<open>bulk_delete\<close> return the empty list.
  The world is what it was, and the trace has grown by the entry into the transaction
  and its commit alone: no hook run, no storage call, no transactional work beyond
  entry.
\<close>

theorem empty_batch_short_circuits:
  "bulk_update env [] flds batch_size bypass_hooks (w, tr) =
     (Inr [], (w, tr @ [Atomic_begin, Atomic_commit])) \<and>
   bulk_delete env [] batch_size bypass_hooks (w, tr) =
     (Inr [], (w, tr @ [Atomic_begin, Atomic_commit]))"
  by (simp add: bulk_update_def bulk_delete_def run_simps)

subsection \<open>C6: \<^verbatim>\<open>bypass_hooks=True\<close>\<close>

text \<open>
  C6. With \<^verbatim>\<open>bypass_hooks=True\<close> and a batch of instances of the model, the result and
  the world of \<^verbatim>\<open>bulk_create\<close>, \<^verbatim>\<open>bulk_update\<close> and \<^verbatim>\<open>bulk_delete\<close> are those of the raw
  write alone (the base manager's primitive on each chunk of 200, or the one delete by
  primary keys), taken inside the transaction; and no call they make is a hook run or
  the fetch of originals. \<^verbatim>\<open>bulk_delete\<close> still builds its context before the delete,
  which is neither.
\<close>

theorem bypass_hooks_only_writes:
  assumes "list_all (\<lambda>r. isinstance (heap w r) (model env)) objs"
  shows "result_and_world (bulk_create env objs batch_size ignore_conflicts True (w, tr)) =
           in_transaction w (raw_create env objs batch_size ignore_conflicts w) \<and>
         (\<exists>new. snd (snd (bulk_create env objs batch_size ignore_conflicts True (w, tr))) = tr @ new \<and>
                list_all quiet new) \<and>
         result_and_world (bulk_update env objs flds batch_size True (w, tr)) =
           in_transaction w (raw_update env objs flds batch_size w) \<and>
         (\<exists>new. snd (snd (bulk_update env objs flds batch_size True (w, tr))) = tr @ new \<and>
                list_all quiet new) \<and>
         result_and_world (bulk_delete env objs batch_size True (w, tr)) =
           (if objs = [] then (Inr [], w)
            else in_transaction w
                   (case new_context env (model env) w of
                      (Inl e, w0) \<Rightarrow> (Inl e, w0)
                    | (Inr ctx, w0) \<Rightarrow> raw_delete env objs w0)) \<and>
         (\<exists>new. snd (snd (bulk_delete env objs batch_size True (w, tr))) = tr @ new \<and>
                list_all quiet new)"
  using valid_batch [OF assms]
    emitsD [OF bulk_create_bypass_quiet, of env objs batch_size ignore_conflicts "(w, tr)"]
    emitsD [OF bulk_update_bypass_quiet, of env objs flds batch_size "(w, tr)"]
    emitsD [OF bulk_delete_bypass_quiet, of env objs batch_size "(w, tr)"]
  by (simp add: bulk_create_bypass_world bulk_update_bypass_world bulk_delete_bypass_world)

theorem bypass_hooks_only_writes_witness:
  "list_all (\<lambda>r. isinstance (heap sample_world r) (model (sample_env Account []))) [2, 3] \<and>
   result_and_world (bulk_update (sample_env Account []) [2, 3] [''name''] None True
                       (sample_world, [])) =
     in_transaction sample_world
       (raw_update (sample_env Account []) [2, 3] [''name''] None sample_world) \<and>
   bulk_update (sample_env Account []) [2, 3] [''name''] None True (sample_world, [])
   = (Inr [2, 3],
      (sample_world\<lparr>db := [Super_bulk_update [2, 3] [''name''] None]\<rparr>,
       [Atomic_begin,
        Called (Super_bulk_update [2, 3] [''name''] None) Returned,
        Atomic_commit]))"
proof -
  have h: "list_all (\<lambda>r. isinstance (heap sample_world r) (model (sample_env Account [])))
             [2, 3]"
    by (simp add: sample_simps)
  have c: "result_and_world (bulk_update (sample_env Account []) [2, 3] [''name''] None True
                       (sample_world, [])) =
     in_transaction sample_world
       (raw_update (sample_env Account []) [2, 3] [''name''] None sample_world)"
    by (rule bypass_hooks_only_writes [OF h, THEN conjunct2, THEN conjunct2, THEN conjunct1])
  show ?thesis
    by (rule conjI [OF h conjI [OF c sample_update_bypassed]])
qed

subsection \<open>C7: one delete, by the non-null primary keys\<close>

text \<open>
  C7. A \<^verbatim>\<open>bulk_delete\<close> of a non-empty batch of instances of the model that returns has,
  inside its transaction, built one context, run BEFORE_DELETE with the batch and that
  context (unless bypassed), made exactly one delete, by the primary keys of the objects
  of the batch whose primary key is not \<^verbatim>\<open>None\<close> (as they are after the BEFORE_DELETE
  hooks), run AFTER_DELETE with the same batch and the same context (unless bypassed),
  and returns the batch.
\<close>

theorem bulk_delete_single_delete:
  assumes "objs \<noteq> []"
    and "list_all (\<lambda>r. isinstance (heap w r) (model env)) objs"
    and "bulk_delete env objs batch_size bypass_hooks (w, tr) = (Inr res, (w', tr'))"
  shows "\<exists>ctx w0 w1.
           new_context env (model env) w = (Inr ctx, w0) \<and>
           (if bypass_hooks then w1 = w0
            else engine_run env (model env) BEFORE_DELETE objs None ctx w0 = (Inr (), w1)) \<and>
           tr' = tr @ [Atomic_begin, Called (New_TriggerContext (model env)) Returned]
                    @ (if bypass_hooks then []
                       else [Called (Engine_run (model env) BEFORE_DELETE objs None ctx) Returned])
                    @ [Called (Filter_pk_in_delete
                         (map (\<lambda>r. pk (heap w1 r))
                            (filter (\<lambda>r. pk (heap w1 r) \<noteq> PyNone) objs))) Returned]
                    @ (if bypass_hooks then []
                       else [Called (Engine_run (model env) AFTER_DELETE objs None ctx) Returned])
                    @ [Atomic_commit] \<and>
           res = objs"
proof -
  have valid: "\<not> any_not_instance w (model env) objs"
    using assms(2) by (auto simp: any_not_instance_iff list_all_iff)
  show ?thesis
    using assms(1,3) valid
    unfolding bulk_delete_def filter_pks
    by (auto simp: run_simps check_types_run split: prod.splits sum.splits if_splits)
qed

theorem bulk_delete_single_delete_witness:
  "[2, 1000, 3] \<noteq> ([] :: ref list) \<and>
   list_all (\<lambda>r. isinstance (heap sample_world r) (model (sample_env Account [])))
     [2, 1000, 3] \<and>
   bulk_delete (sample_env Account []) [2, 1000, 3] None False (sample_world, [])
   = (Inr [2, 1000, 3],
      (sample_world\<lparr>db := [Filter_pk_in_delete [PyInt 2, PyInt 3]]\<rparr>,
       [Atomic_begin,
        Called (New_TriggerContext Account) Returned,
        Called (Engine_run Account BEFORE_DELETE [2, 1000, 3] None 0) Returned,
        Called (Filter_pk_in_delete [PyInt 2, PyInt 3]) Returned,
        Called (Engine_run Account AFTER_DELETE [2, 1000, 3] None 0) Returned,
        Atomic_commit])) \<and>
   (\<exists>ctx w0. new_context (sample_env Account []) (model (sample_env Account []))
               sample_world = (Inr ctx, w0))"
proof -
  have h1: "[2, 1000, 3] \<noteq> ([] :: ref list)" by simp
  have h2: "list_all (\<lambda>r. isinstance (heap sample_world r) (model (sample_env Account [])))
              [2, 1000, 3]"
    by (simp add: sample_simps)
  note h3 = sample_delete
  from bulk_delete_single_delete [OF h1 h2 h3]
  have c: "\<exists>ctx w0. new_context (sample_env Account []) (model (sample_env Account []))
                      sample_world = (Inr ctx, w0)"
    by blast
  show ?thesis
    by (rule conjI [OF h1 conjI [OF h2 conjI [OF h3 c]]])
qed

subsection \<open>C8: \<^verbatim>\<open>bulk_create\<close> of the empty batch still runs the hooks\<close>

text \<open>
  C8. \<^verbatim>\<open>bulk_create\<close> has no test for the empty batch: with \<^verbatim>\<open>bypass_hooks=False\<close> a
  call on \<open>[]\<close> that returns has, inside its transaction, built a context and run
  BEFORE_CREATE and AFTER_CREATE, each with the empty batch and that context, has made
  no storage call, and returns the empty list.
\<close>

theorem bulk_create_empty_runs_hooks:
  assumes "bulk_create env [] batch_size ignore_conflicts False (w, tr) = (Inr res, (w', tr'))"
  shows "res = [] \<and>
         (\<exists>ctx. tr' = tr @ [Atomic_begin,
                            Called (New_TriggerContext (model env)) Returned,
                            Called (Engine_run (model env) BEFORE_CREATE [] None ctx) Returned,
                            Called (Engine_run (model env) AFTER_CREATE [] None ctx) Returned,
                            Atomic_commit])"
  using assms
  unfolding bulk_create_def create_chunks_raw
  by (auto simp: run_simps check_types_run any_not_instance_def chunks_of_Nil
        split: prod.splits sum.splits if_splits)

theorem bulk_create_empty_runs_hooks_witness:
  "bulk_create (sample_env Account []) [] None False False (sample_world, [])
   = (Inr [],
      (sample_world,
       [Atomic_begin,
        Called (New_TriggerContext Account) Returned,
        Called (Engine_run Account BEFORE_CREATE [] None 0) Returned,
        Called (Engine_run Account AFTER_CREATE [] None 0) Returned,
        Atomic_commit])) \<and>
   (\<exists>ctx. [Atomic_begin,
           Called (New_TriggerContext Account) Returned,
           Called (Engine_run Account BEFORE_CREATE [] None 0) Returned,
           Called (Engine_run Account AFTER_CREATE [] None 0) Returned,
           Atomic_commit]
          = [] @ [Atomic_begin,
                  Called (New_TriggerContext (model (sample_env Account []))) Returned,
                  Called (Engine_run (model (sample_env Account [])) BEFORE_CREATE [] None ctx)
                    Returned,
                  Called (Engine_run (model (sample_env Account [])) AFTER_CREATE [] None ctx)
                    Returned,
                  Atomic_commit])"
  by (rule conjI [OF sample_create_empty
        bulk_create_empty_runs_hooks [OF sample_create_empty, THEN conjunct2]])

subsection \<open>C9: the type check is not bypassed\<close>

text \<open>
  C9. With \<^verbatim>\<open>bypass_hooks=True\<close> a batch that holds an object that is not an instance
  of the model is refused all the same: the three bulk methods raise the
  \<^verbatim>\<open>TypeError\<close>; the trace has grown by the entry into the transaction and its
  rollback alone, and the world is unchanged, so no storage write occurs. An instance
  of another class with the same name is refused too.
\<close>

theorem type_check_not_bypassed:
  assumes "r \<in> set objs" and "\<not> isinstance (heap w r) (model env)"
  shows "bulk_create env objs batch_size ignore_conflicts True (w, tr) =
           (Inl (TypeError ''bulk_create'' (class_name (model env)) (type_names w objs)),
            (w, tr @ [Atomic_begin, Atomic_rollback])) \<and>
         bulk_update env objs flds batch_size True (w, tr) =
           (Inl (TypeError ''bulk_update'' (class_name (model env)) (type_names w objs)),
            (w, tr @ [Atomic_begin, Atomic_rollback])) \<and>
         bulk_delete env objs batch_size True (w, tr) =
           (Inl (TypeError ''bulk_delete'' (class_name (model env)) (type_names w objs)),
            (w, tr @ [Atomic_begin, Atomic_rollback]))"
  using type_mismatch_any [OF assms]
  by (simp add: bulk_create_mismatch bulk_update_mismatch bulk_delete_mismatch)

theorem type_check_not_bypassed_witness:
  "(600 :: ref) \<in> set [600, 3] \<and>
   \<not> isinstance (heap sample_world 600) (model (sample_env Account [])) \<and>
   class_name (obj_class (sample_heap 600)) = class_name Account \<and>
   bulk_create (sample_env Account []) [600, 3] None False True (sample_world, []) =
     (Inl (TypeError ''bulk_create'' (class_name (model (sample_env Account [])))
             (type_names sample_world [600, 3])),
      (sample_world, [] @ [Atomic_begin, Atomic_rollback])) \<and>
   bulk_update (sample_env Account []) [600, 3] [''name''] None True (sample_world, []) =
     (Inl (TypeError ''bulk_update'' (class_name (model (sample_env Account [])))
             (type_names sample_world [600, 3])),
      (sample_world, [] @ [Atomic_begin, Atomic_rollback])) \<and>
   bulk_delete (sample_env Account []) [600, 3] None True (sample_world, []) =
     (Inl (TypeError ''bulk_delete'' (class_name (model (sample_env Account [])))
             (type_names sample_world [600, 3])),
      (sample_world, [] @ [Atomic_begin, Atomic_rollback]))"
proof -
  have h1: "600 \<in> set [600, 3 :: nat]" by simp
  have h2: "\<not> isinstance (heap sample_world 600) (model (sample_env Account []))"
    by (simp add: sample_simps)
  note same_name = sample_other_account(2)
  show ?thesis
    by (rule conjI [OF h1 conjI [OF h2 conjI [OF same_name
          type_check_not_bypassed [OF h1 h2]]]])
qed

subsection \<open>C10: \<^verbatim>\<open>save\<close> branches on truthiness\<close>

text \<open>
  C10. The first thing \<^verbatim>\<open>save(obj)\<close> does inside its transaction is to call one of its
  bulk methods, and it calls no other: \<^verbatim>\<open>bulk_create([obj])\<close> when the primary key of
  \<open>obj\<close> is \<^verbatim>\<open>None\<close>, \<open>0\<close> or the empty string (the falsy values), and
  otherwise \<^verbatim>\<open>bulk_update([obj], fields)\<close> with the fields whose name is not \<^verbatim>\<open>id\<close>.
\<close>

theorem save_routes_on_truthiness:
  assumes "save env obj (w, tr) = (res, (w', tr'))"
  shows "(\<exists>rest. tr' = tr @ Atomic_begin #
                         Routed (if pk (heap w obj) = PyNone \<or> pk (heap w obj) = PyInt 0 \<or>
                                    pk (heap w obj) = PyStr []
                                 then Self_bulk_create [obj] None False False
                                 else Self_bulk_update [obj]
                                        (filter (\<lambda>name. name \<noteq> ''id'') (meta_fields (heap w obj)))
                                        None False) # rest \<and>
                 list_all (\<lambda>x. \<not> is_routed x) rest)"
proof (cases "truthy (pk (heap w obj))")
  case True
  let ?flds = "filter (\<lambda>name. name \<noteq> ''id'') (meta_fields (heap w obj))"
  let ?s = "(w, tr @ [Atomic_begin, Routed (Self_bulk_update [obj] ?flds None False)])"
  from emitsD [OF bulk_update_not_routed, of env "[obj]" ?flds None False ?s]
  obtain new where new: "snd (snd (bulk_update env [obj] ?flds None False ?s)) = snd ?s @ new"
    "list_all (\<lambda>x. \<not> is_routed x) new" by blast
  obtain r1 s1 where run: "bulk_update env [obj] ?flds None False ?s = (r1, s1)"
    by (cases "bulk_update env [obj] ?flds None False ?s")
  from assms True run
  have "tr' = snd s1 @ [Atomic_commit] \<or> tr' = snd s1 @ [Atomic_rollback]"
    by (cases r1) (simp_all add: save_def run_simps)
  with new run
  have "tr' = tr @ Atomic_begin # Routed (Self_bulk_update [obj] ?flds None False)
                # (new @ [Atomic_commit]) \<or>
        tr' = tr @ Atomic_begin # Routed (Self_bulk_update [obj] ?flds None False)
                # (new @ [Atomic_rollback])"
    by auto
  moreover from True have "\<not> (pk (heap w obj) = PyNone \<or> pk (heap w obj) = PyInt 0 \<or>
                                       pk (heap w obj) = PyStr [])"
    using falsy_values by blast
  ultimately show ?thesis using new(2) by auto
next
  case False
  let ?s = "(w, tr @ [Atomic_begin, Routed (Self_bulk_create [obj] None False False)])"
  from emitsD [OF bulk_create_not_routed, of env "[obj]" None False False ?s]
  obtain new where new: "snd (snd (bulk_create env [obj] None False False ?s)) = snd ?s @ new"
    "list_all (\<lambda>x. \<not> is_routed x) new" by blast
  obtain r1 s1 where run: "bulk_create env [obj] None False False ?s = (r1, s1)"
    by (cases "bulk_create env [obj] None False False ?s")
  from assms False run
  have "tr' = snd s1 @ [Atomic_commit] \<or> tr' = snd s1 @ [Atomic_rollback]"
    by (cases r1) (simp_all add: save_def run_simps)
  with new run
  have "tr' = tr @ Atomic_begin # Routed (Self_bulk_create [obj] None False False)
                # (new @ [Atomic_commit]) \<or>
        tr' = tr @ Atomic_begin # Routed (Self_bulk_create [obj] None False False)
                # (new @ [Atomic_rollback])"
    by auto
  moreover from False have "pk (heap w obj) = PyNone \<or> pk (heap w obj) = PyInt 0 \<or>
                                       pk (heap w obj) = PyStr []"
    using falsy_values by blast
  ultimately show ?thesis using new(2) by auto
qed

theorem save_routes_on_truthiness_witness:
  "save (sample_env Account []) 1000 (sample_world, [])
   = (Inr 1000,
      (sample_world\<lparr>db := [Super_bulk_create [1000] None False]\<rparr>,
       [Atomic_begin,
        Routed (Self_bulk_create [1000] None False False),
        Atomic_begin,
        Called (New_TriggerContext Account) Returned,
        Called (Engine_run Account BEFORE_CREATE [1000] None 0) Returned,
        Called (Super_bulk_create [1000] None False) Returned,
        Called (Engine_run Account AFTER_CREATE [1000] None 0) Returned,
        Atomic_commit,
        Atomic_commit])) \<and>
   (\<exists>rest. [Atomic_begin,
            Routed (Self_bulk_create [1000] None False False),
            Atomic_begin,
            Called (New_TriggerContext Account) Returned,
            Called (Engine_run Account BEFORE_CREATE [1000] None 0) Returned,
            Called (Super_bulk_create [1000] None False) Returned,
            Called (Engine_run Account AFTER_CREATE [1000] None 0) Returned,
            Atomic_commit,
            Atomic_commit]
         = [] @ Atomic_begin #
                Routed (if pk (heap sample_world 1000) = PyNone \<or>
                           pk (heap sample_world 1000) = PyInt 0 \<or>
                           pk (heap sample_world 1000) = PyStr []
                        then Self_bulk_create [1000] None False False
                        else Self_bulk_update [1000]
                               (filter (\<lambda>name. name \<noteq> ''id'') (meta_fields (heap sample_world 1000)))
                               None False) # rest \<and>
           list_all (\<lambda>x. \<not> is_routed x) rest)"
  by (rule conjI [OF sample_save_unsaved save_routes_on_truthiness [OF sample_save_unsaved]])

end
